theory Spec2Isabelle
  imports Main
begin

section \<open>Strings of the runtime\<close>

text \<open>
  A JavaScript string is modelled as a \<^typ>\<open>string\<close>: the bytes of its UTF-8 encoding.
  An ASCII character is one byte, so the character classes of the regular expressions in
  \<^verbatim>\<open>index.ts\<close> (all of them ASCII) read a string byte by byte exactly as the engine reads
  it code unit by code unit: every unit of a non-ASCII character is outside each of the
  classes, as every byte of its encoding is.
\<close>

definition in_range :: "char \<Rightarrow> char \<Rightarrow> char \<Rightarrow> bool" where
  "in_range lo hi c = ((of_char lo :: nat) \<le> of_char c \<and> (of_char c :: nat) \<le> of_char hi)"

text \<open>\<^verbatim>\<open>s.includes(t)\<close>: \<open>t\<close> occurs in \<open>s\<close> as a contiguous run.\<close>

fun str_includes :: "string \<Rightarrow> string \<Rightarrow> bool" where
  "str_includes [] t = (t = [])"
| "str_includes (c # s) t = (take (length t) (c # s) = t \<or> str_includes s t)"

text \<open>
  \<^verbatim>\<open>String.prototype.trim\<close> removes the WhiteSpace and LineTerminator code points of
  ECMAScript from both ends: U+0009 to U+000D, U+0020, U+00A0, U+1680, U+2000 to U+200A,
  U+2028, U+2029, U+202F, U+205F, U+3000 and U+FEFF, listed here by their encodings.
\<close>

definition whitespace :: "string list" where
  "whitespace =
     [[CHR 0x09], [CHR 0x0A], [CHR 0x0B], [CHR 0x0C], [CHR 0x0D], [CHR 0x20],
      [CHR 0xC2, CHR 0xA0],
      [CHR 0xE1, CHR 0x9A, CHR 0x80],
      [CHR 0xE2, CHR 0x80, CHR 0x80], [CHR 0xE2, CHR 0x80, CHR 0x81],
      [CHR 0xE2, CHR 0x80, CHR 0x82], [CHR 0xE2, CHR 0x80, CHR 0x83],
      [CHR 0xE2, CHR 0x80, CHR 0x84], [CHR 0xE2, CHR 0x80, CHR 0x85],
      [CHR 0xE2, CHR 0x80, CHR 0x86], [CHR 0xE2, CHR 0x80, CHR 0x87],
      [CHR 0xE2, CHR 0x80, CHR 0x88], [CHR 0xE2, CHR 0x80, CHR 0x89],
      [CHR 0xE2, CHR 0x80, CHR 0x8A],
      [CHR 0xE2, CHR 0x80, CHR 0xA8], [CHR 0xE2, CHR 0x80, CHR 0xA9],
      [CHR 0xE2, CHR 0x80, CHR 0xAF],
      [CHR 0xE2, CHR 0x81, CHR 0x9F],
      [CHR 0xE3, CHR 0x80, CHR 0x80],
      [CHR 0xEF, CHR 0xBB, CHR 0xBF]]"

definition leading :: "string list \<Rightarrow> string \<Rightarrow> string option" where
  "leading toks s = find (\<lambda>w. w \<noteq> [] \<and> take (length w) s = w) toks"

function strip_leading :: "string list \<Rightarrow> string \<Rightarrow> string" where
  "strip_leading toks s =
     (case leading toks s of
        None \<Rightarrow> s
      | Some w \<Rightarrow> strip_leading toks (drop (length w) s))"
  by pat_completeness auto
termination
proof (relation "measure (\<lambda>(toks, s). length s)")
  show "wf (measure (\<lambda>(toks, s). length s))" by simp
next
  fix toks :: "string list" and s w :: string
  assume "leading toks s = Some w"
  then have "w \<noteq> []" and "take (length w) s = w"
    by (auto simp: leading_def find_Some_iff)
  then have "s \<noteq> []" and "0 < length w" by auto
  then show "((toks, drop (length w) s), (toks, s)) \<in> measure (\<lambda>(toks, s). length s)"
    by simp
qed

declare strip_leading.simps [simp del]

definition trimStart :: "string \<Rightarrow> string" where
  "trimStart s = strip_leading whitespace s"

definition trimEnd :: "string \<Rightarrow> string" where
  "trimEnd s = rev (strip_leading (map rev whitespace) (rev s))"

definition trim :: "string \<Rightarrow> string" where
  "trim s = trimEnd (trimStart s)"

text \<open>
  \<^verbatim>\<open>s.replace(/[class]/g, rep)\<close> for a one-character class: each character of the class is
  replaced by \<open>rep\<close>, every other character is kept, in order.
\<close>

definition replace_all :: "(char \<Rightarrow> bool) \<Rightarrow> string \<Rightarrow> string \<Rightarrow> string" where
  "replace_all cls rep s = concat (map (\<lambda>c. if cls c then rep else [c]) s)"

section \<open>Regular expressions\<close>

text \<open>
  The fragment of the regular expressions of JavaScript that \<^verbatim>\<open>index.ts\<close> uses:
  character classes, concatenation, alternation and repetition. \<^verbatim>\<open>re.test(s)\<close> for a
  pattern whose alternatives are each anchored by \<^verbatim>\<open>^\<close> and \<^verbatim>\<open>$\<close> (no flag \<^verbatim>\<open>m\<close>)
  asks whether the whole of \<open>s\<close> matches; it is decided here by derivatives.
\<close>

datatype regex =
    Never
  | Empty
  | Class "char \<Rightarrow> bool"
  | Alt regex regex
  | Seq regex regex
  | Star regex

fun nullable :: "regex \<Rightarrow> bool" where
  "nullable Never = False"
| "nullable Empty = True"
| "nullable (Class p) = False"
| "nullable (Alt r s) = (nullable r \<or> nullable s)"
| "nullable (Seq r s) = (nullable r \<and> nullable s)"
| "nullable (Star r) = True"

fun deriv :: "char \<Rightarrow> regex \<Rightarrow> regex" where
  "deriv c Never = Never"
| "deriv c Empty = Never"
| "deriv c (Class p) = (if p c then Empty else Never)"
| "deriv c (Alt r s) = Alt (deriv c r) (deriv c s)"
| "deriv c (Seq r s) =
     (if nullable r then Alt (Seq (deriv c r) s) (deriv c s) else Seq (deriv c r) s)"
| "deriv c (Star r) = Seq (deriv c r) (Star r)"

fun test :: "regex \<Rightarrow> string \<Rightarrow> bool" where
  "test r [] = nullable r"
| "test r (c # s) = test (deriv c r) s"

text \<open>\<^verbatim>\<open>r+\<close>, \<^verbatim>\<open>r?\<close> and \<^verbatim>\<open>r{n}\<close>.\<close>

definition Plus :: "regex \<Rightarrow> regex" where
  "Plus r = Seq r (Star r)"

definition Opt :: "regex \<Rightarrow> regex" where
  "Opt r = Alt r Empty"

fun Times :: "nat \<Rightarrow> regex \<Rightarrow> regex" where
  "Times 0 r = Empty"
| "Times (Suc n) r = Seq r (Times n r)"

section \<open>Input sanitization (\<^verbatim>\<open>index.ts\<close>)\<close>

text \<open>
  An exception of the runtime: \<^verbatim>\<open>new Error(message)\<close>, or the \<^verbatim>\<open>TypeError\<close> the engine
  raises when a method is called on, or a property read from, a value that has none
  (its message is the engine's own wording; nothing below depends on it).
\<close>

datatype error = Error string | TypeError string

fun message :: "error \<Rightarrow> string" where
  "message (Error m) = m"
| "message (TypeError m) = m"

text \<open>\<^verbatim>\<open>String(error)\<close> and \<^verbatim>\<open>`${error}`\<close>.\<close>

fun String_error :: "error \<Rightarrow> string" where
  "String_error (Error m) = ''Error: '' @ m"
| "String_error (TypeError m) = ''TypeError: '' @ m"

text \<open>\<^verbatim>\<open>[a-zA-Z0-9_\-\.:]\<close>, the class whose complement \<^verbatim>\<open>sanitizeName\<close> deletes.\<close>

definition name_char :: "char \<Rightarrow> bool" where
  "name_char c =
     (in_range CHR ''a'' CHR ''z'' c \<or> in_range CHR ''A'' CHR ''Z'' c \<or>
      in_range CHR ''0'' CHR ''9'' c \<or> c = CHR ''_'' \<or> c = CHR ''-'' \<or> c = CHR ''.'' \<or>
      c = CHR '':'')"

definition sanitizeName :: "string \<Rightarrow> error + string" where
  "sanitizeName input =
     (let sanitized = replace_all (\<lambda>c. \<not> name_char c) [] input in
      if sanitized \<noteq> input
      then Inl (Error (''Invalid characters in input: '' @ input))
      else Inr sanitized)"

text \<open>\<^verbatim>\<open>\d\<close> and \<^verbatim>\<open>[0-9]\<close>; \<^verbatim>\<open>[smhd]\<close>; \<^verbatim>\<open>[\d:]\<close>.\<close>

definition digit :: "char \<Rightarrow> bool" where
  "digit c = in_range CHR ''0'' CHR ''9'' c"

definition unit_letter :: "char \<Rightarrow> bool" where
  "unit_letter c = (c = CHR ''s'' \<or> c = CHR ''m'' \<or> c = CHR ''h'' \<or> c = CHR ''d'')"

definition digit_or_colon :: "char \<Rightarrow> bool" where
  "digit_or_colon c = (digit c \<or> c = CHR '':'')"

text \<open>\<^verbatim>\<open>/^[0-9]+[smhd]$|^\d{4}-\d{2}-\d{2}(T[\d:]+)?$/\<close>\<close>

definition timestamp_regex :: regex where
  "timestamp_regex =
     Alt (Seq (Plus (Class digit)) (Class unit_letter))
         (Seq (Times 4 (Class digit))
           (Seq (Class (\<lambda>c. c = CHR ''-''))
             (Seq (Times 2 (Class digit))
               (Seq (Class (\<lambda>c. c = CHR ''-''))
                 (Seq (Times 2 (Class digit))
                   (Opt (Seq (Class (\<lambda>c. c = CHR ''T'')) (Plus (Class digit_or_colon)))))))))"

definition sanitizeTimestamp :: "string \<Rightarrow> error + string" where
  "sanitizeTimestamp input =
     (if \<not> test timestamp_regex input
      then Inl (Error (''Invalid timestamp format: '' @ input))
      else Inr input)"

text \<open>
  \<^verbatim>\<open>[;&|`$(){}[\]<>\\!"']\<close>: the seventeen characters
  \<^verbatim>\<open>; & | ` $ ( ) { } [ ] < > \ ! " '\<close>.
\<close>

definition shell_meta :: "char \<Rightarrow> bool" where
  "shell_meta c =
     (c = CHR '';'' \<or> c = CHR ''&'' \<or> c = CHR ''|'' \<or> c = CHR 0x60 \<or> c = CHR ''$'' \<or>
      c = CHR ''('' \<or> c = CHR '')'' \<or> c = CHR ''{'' \<or> c = CHR ''}'' \<or> c = CHR ''['' \<or>
      c = CHR '']'' \<or> c = CHR ''<'' \<or> c = CHR ''>'' \<or> c = CHR 0x5C \<or> c = CHR ''!'' \<or>
      c = CHR 0x22 \<or> c = CHR 0x27)"

definition sanitizeGrepPattern :: "string \<Rightarrow> string" where
  "sanitizeGrepPattern input = replace_all shell_meta [] input"

section \<open>Values of the caller\<close>

text \<open>
  The arguments of a tool call arrive as parsed JSON and are not checked against the
  tool's \<^verbatim>\<open>inputSchema\<close>: the casts \<^verbatim>\<open>as string\<close> of \<^verbatim>\<open>index.ts\<close> do nothing at run time.
  The program reads two things of a number: whether it is zero, and the text that the
  runtime prints for it. A number is therefore given by that text, the result of
  \<^verbatim>\<open>Number.prototype.toString\<close>: \<^verbatim>\<open>100\<close>, \<^verbatim>\<open>-3\<close>, \<^verbatim>\<open>1.5\<close>, \<^verbatim>\<open>1e+21\<close>. Both zeros
  print as \<^verbatim>\<open>0\<close>, and JSON has no \<^verbatim>\<open>NaN\<close>. The members of an object are an association
  list, read by \<^const>\<open>map_of\<close>; a parsed object holds each name once.
\<close>

datatype json =
    JNull
  | JBool bool
  | JNum string
  | JStr string
  | JArr "json list"
  | JObj "(string \<times> json) list"

text \<open>\<^verbatim>\<open>request.params.arguments\<close>; \<open>args k = None\<close> is \<^verbatim>\<open>args?.k === undefined\<close>.\<close>

type_synonym args = "string \<rightharpoonup> json"

fun truthy :: "json \<Rightarrow> bool" where
  "truthy JNull = False"
| "truthy (JBool b) = b"
| "truthy (JNum n) = (n \<noteq> ''0'')"
| "truthy (JStr s) = (s \<noteq> [])"
| "truthy (JArr xs) = True"
| "truthy (JObj kvs) = True"

text \<open>The value of \<^verbatim>\<open>args?.k\<close> when it is truthy.\<close>

definition truthy_value :: "json option \<Rightarrow> json option" where
  "truthy_value v = (case v of None \<Rightarrow> None | Some x \<Rightarrow> if truthy x then Some x else None)"

text \<open>\<^verbatim>\<open>v ?? d\<close>.\<close>

definition nullish_or :: "json option \<Rightarrow> json \<Rightarrow> json" where
  "nullish_or v d = (case v of None \<Rightarrow> d | Some JNull \<Rightarrow> d | Some x \<Rightarrow> x)"

text \<open>
  The decimal numeral of a natural number: what the runtime prints for the timeout of
  \<^verbatim>\<open>sshExec\<close>, a whole number of milliseconds.
\<close>

fun digits_of :: "nat \<Rightarrow> string" where
  "digits_of n =
     (if n < 10 then [''0123456789'' ! n]
      else digits_of (n div 10) @ [''0123456789'' ! (n mod 10)])"

declare digits_of.simps [simp del]

fun join :: "string \<Rightarrow> string list \<Rightarrow> string" where
  "join sep [] = []"
| "join sep [x] = x"
| "join sep (x # y # ys) = x @ sep @ join sep (y # ys)"

text \<open>The results of a list of computations, or the first exception among them.\<close>

fun sequence :: "(error + 'a) list \<Rightarrow> error + 'a list" where
  "sequence [] = Inr []"
| "sequence (Inl e # rs) = Inl e"
| "sequence (Inr x # rs) = (case sequence rs of Inl e \<Rightarrow> Inl e | Inr xs \<Rightarrow> Inr (x # xs))"

text \<open>
  \<^verbatim>\<open>`${v}`\<close> and \<^verbatim>\<open>String(v)\<close>. A string is itself. An array is its elements joined by
  commas, \<^verbatim>\<open>null\<close> as the empty string. A parsed object has no callable member: one
  without a member \<^verbatim>\<open>toString\<close> of its own inherits that of \<^verbatim>\<open>Object.prototype\<close> and is
  \<^verbatim>\<open>[object Object]\<close>; for one with such a member neither \<^verbatim>\<open>toString\<close> nor \<^verbatim>\<open>valueOf\<close>
  gives a primitive value, and the conversion throws a \<^verbatim>\<open>TypeError\<close>.
\<close>

definition no_primitive :: error where
  "no_primitive = TypeError ''Cannot convert object to primitive value''"

fun to_string :: "json \<Rightarrow> error + string" where
  "to_string JNull = Inr ''null''"
| "to_string (JBool b) = Inr (if b then ''true'' else ''false'')"
| "to_string (JNum n) = Inr n"
| "to_string (JStr s) = Inr s"
| "to_string (JArr xs) =
     (case sequence (map (\<lambda>x. if x = JNull then Inr [] else to_string x) xs) of
        Inl e \<Rightarrow> Inl e
      | Inr ts \<Rightarrow> Inr (join '','' ts))"
| "to_string (JObj kvs) =
     (case map_of kvs ''toString'' of
        None \<Rightarrow> Inr ''[object Object]''
      | Some v \<Rightarrow> Inl no_primitive)"

section \<open>Effects\<close>

text \<open>
  What a call does besides returning: it starts a process (\<^verbatim>\<open>Bun.spawn(argv)\<close>) and it may
  kill it (\<^verbatim>\<open>proc.kill()\<close> while the process runs). A computation is the list of its
  events, in order, with its result: a value, or the exception it throws.
\<close>

datatype event = Spawn "string list" | Kill

type_synonym 'a io = "event list \<times> (error + 'a)"

definition ret :: "'a \<Rightarrow> 'a io" where
  "ret x = ([], Inr x)"

definition throw :: "error \<Rightarrow> 'a io" where
  "throw e = ([], Inl e)"

definition lift :: "error + 'a \<Rightarrow> 'a io" where
  "lift r = ([], r)"

definition bind :: "'a io \<Rightarrow> ('a \<Rightarrow> 'b io) \<Rightarrow> 'b io" where
  "bind m f =
     (case m of
        (evs, Inl e) \<Rightarrow> (evs, Inl e)
      | (evs, Inr x) \<Rightarrow> (case f x of (evs', r) \<Rightarrow> (evs @ evs', r)))"

text \<open>\<^verbatim>\<open>try { m } catch (error) { h(error) }\<close>\<close>

definition try_catch :: "'a io \<Rightarrow> (error \<Rightarrow> 'a io) \<Rightarrow> 'a io" where
  "try_catch m h =
     (case m of
        (evs, Inl e) \<Rightarrow> (case h e of (evs', r) \<Rightarrow> (evs @ evs', r))
      | (evs, Inr x) \<Rightarrow> (evs, Inr x))"

section \<open>The remote executor (\<^verbatim>\<open>ssh.ts\<close>)\<close>

text \<open>
  The process that \<^verbatim>\<open>Bun.spawn\<close> starts, as the program observes it: the time at which it
  exits, in milliseconds after the spawn (\<open>None\<close>: it never does), its exit status, and
  what reading each of its output streams to the end yields (the text, or an exception).
\<close>

record process =
  exits_at :: "nat option"
  exit_status :: int
  stdout_text :: "error + string"
  stderr_text :: "error + string"

datatype spawned = SpawnThrows error | Spawned process

text \<open>
  The world outside the program: the environment variable \<^verbatim>\<open>SSH_HOST\<close>, the process that
  an argument vector starts, and the runtime's \<^verbatim>\<open>JSON.parse\<close> (\<open>None\<close>: it throws a
  \<^verbatim>\<open>SyntaxError\<close>) and \<^verbatim>\<open>JSON.stringify(v, null, 2)\<close>.
\<close>

record world =
  SSH_HOST :: "string option"
  spawn :: "string list \<Rightarrow> spawned"
  JSON_parse :: "string \<Rightarrow> json option"
  JSON_stringify :: "json \<Rightarrow> string"

record SSHResult =
  stdout :: string
  stderr :: string
  exitCode :: int

record SSHOptions =
  host :: string
  timeout :: "nat option"

definition timed_out :: "nat \<Rightarrow> error" where
  "timed_out t = Error (''SSH command timed out after '' @ digits_of t @ ''ms'')"

text \<open>
  \<^verbatim>\<open>Promise.race([proc.exited, timeoutPromise])\<close>: the exit status when the process exits
  before \<open>t\<close> milliseconds have passed; otherwise the timer's callback runs first, kills
  the process and rejects. (When both fall in the same millisecond the timer is taken to
  win.)
\<close>

definition race :: "process \<Rightarrow> nat \<Rightarrow> int io" where
  "race proc t =
     (case exits_at proc of
        Some e \<Rightarrow> if e < t then ([], Inr (exit_status proc)) else ([Kill], Inl (timed_out t))
      | None \<Rightarrow> ([Kill], Inl (timed_out t)))"

definition sshExec :: "world \<Rightarrow> string \<Rightarrow> SSHOptions \<Rightarrow> SSHResult io" where
  "sshExec w command options =
     (let h = host options;
          t = (case timeout options of None \<Rightarrow> 30000 | Some t \<Rightarrow> t);
          argv = [''ssh'', ''-o'', ''BatchMode=yes'', ''-o'', ''ConnectTimeout=10'', h, command]
      in case spawn w argv of
           SpawnThrows e \<Rightarrow> ([Spawn argv], Inl e)
         | Spawned proc \<Rightarrow>
             bind ([Spawn argv], Inr ()) (\<lambda>_.
               try_catch
                 (bind (race proc t) (\<lambda>result.
                  bind (lift (stdout_text proc)) (\<lambda>out.
                  bind (lift (stderr_text proc)) (\<lambda>err.
                  ret \<lparr>stdout = trim out, stderr = trim err, exitCode = result\<rparr>))))
                 (\<lambda>error.
                    if str_includes (message error) ''timed out'' then throw error
                    else throw (Error (''SSH execution failed: '' @ String_error error)))))"

text \<open>The argument vector that \<^verbatim>\<open>sshExec\<close> spawns for a host and a command.\<close>

abbreviation ssh_argv :: "string \<Rightarrow> string \<Rightarrow> string list" where
  "ssh_argv h cmd \<equiv> [''ssh'', ''-o'', ''BatchMode=yes'', ''-o'', ''ConnectTimeout=10'', h, cmd]"

abbreviation sq :: char where "sq \<equiv> CHR 0x27"
abbreviation dq :: char where "dq \<equiv> CHR 0x22"
abbreviation bs :: char where "bs \<equiv> CHR 0x5C"

definition testConnection :: "world \<Rightarrow> string \<Rightarrow> bool io" where
  "testConnection w h =
     try_catch
       (bind (sshExec w (''echo '' @ [sq] @ ''ok'' @ [sq]) \<lparr>host = h, timeout = Some 10000\<rparr>)
          (\<lambda>result. ret (exitCode result = 0 \<and> stdout result = ''ok'')))
       (\<lambda>_. ret False)"

section \<open>The command dispatcher (\<^verbatim>\<open>index.ts\<close>)\<close>

text \<open>
  \<^verbatim>\<open>index.ts\<close> holds two revisions of the server one after the other. The model is of
  the second one (from line 319), which adds the three sanitizers to the first.
\<close>

text \<open>
  A tool result: the text of its one content item, and the flag \<^verbatim>\<open>isError\<close> (absent
  in the source: false).
\<close>

record tool_result =
  content_text :: string
  isError :: bool

definition DEFAULT_SSH_HOST :: "world \<Rightarrow> string" where
  "DEFAULT_SSH_HOST w =
     (case SSH_HOST w of
        None \<Rightarrow> ''dokploy''
      | Some s \<Rightarrow> if s \<noteq> [] then s else ''dokploy'')"

text \<open>
  The sanitizers as the handler calls them, on a value cast by \<^verbatim>\<open>as string\<close>:
  \<^verbatim>\<open>input.replace\<close> is a function on a string only, and \<^verbatim>\<open>RegExp.prototype.test\<close>
  reads its argument through \<^verbatim>\<open>String(v)\<close>, which may throw, as the template that
  receives the result does.
\<close>

definition no_replace :: error where
  "no_replace = TypeError ''input.replace is not a function''"

definition sanitizeName_of :: "json \<Rightarrow> error + string" where
  "sanitizeName_of v = (case v of JStr s \<Rightarrow> sanitizeName s | _ \<Rightarrow> Inl no_replace)"

definition sanitizeGrepPattern_of :: "json \<Rightarrow> error + string" where
  "sanitizeGrepPattern_of v =
     (case v of JStr s \<Rightarrow> Inr (sanitizeGrepPattern s) | _ \<Rightarrow> Inl no_replace)"

definition sanitizeTimestamp_of :: "json \<Rightarrow> error + string" where
  "sanitizeTimestamp_of v =
     (case to_string v of Inl e \<Rightarrow> Inl e | Inr input \<Rightarrow> sanitizeTimestamp input)"

text \<open>\<^verbatim>\<open>a || b\<close> on strings.\<close>

definition or_else :: "string \<Rightarrow> string \<Rightarrow> string" where
  "or_else a b = (if a \<noteq> [] then a else b)"

definition test_connection :: "world \<Rightarrow> string \<Rightarrow> tool_result io" where
  "test_connection w h =
     bind (testConnection w h) (\<lambda>success.
       ret \<lparr>content_text =
              (if success
               then [CHR 0xE2, CHR 0x9C, CHR 0x93] @ '' Successfully connected to '' @ h
               else [CHR 0xE2, CHR 0x9C, CHR 0x97] @ '' Failed to connect to '' @ h @
                    ''. Check your SSH config.''),
            isError = False\<rparr>)"

definition list_containers :: "world \<Rightarrow> args \<Rightarrow> string \<Rightarrow> tool_result io" where
  "list_containers w args h =
     (let showAll = (case truthy_value (args ''all'') of Some _ \<Rightarrow> ''-a'' | None \<Rightarrow> []);
          format = ''--format '' @ [dq] @ ''table {{.Names}}'' @ [bs] @ ''t{{.Status}}'' @
                   [bs] @ ''t{{.Image}}'' @ [dq];
          command = ''docker ps '' @ showAll @ '' '' @ format
      in bind
           (case truthy_value (args ''filter'') of
              Some filter_arg \<Rightarrow>
                bind (lift (sanitizeGrepPattern_of filter_arg)) (\<lambda>safeFilter.
                  ret (command @ '' | grep -E '' @ [dq] @ ''NAMES|'' @ safeFilter @ [dq]))
            | None \<Rightarrow> ret command)
           (\<lambda>command.
              bind (sshExec w command \<lparr>host = h, timeout = None\<rparr>) (\<lambda>result.
                if exitCode result \<noteq> 0
                then throw (Error (or_else (stderr result) ''Failed to list containers''))
                else ret \<lparr>content_text = stdout result, isError = False\<rparr>)))"

definition get_container_logs :: "world \<Rightarrow> args \<Rightarrow> string \<Rightarrow> tool_result io" where
  "get_container_logs w args h =
     (case truthy_value (args ''container'') of
        None \<Rightarrow> throw (Error ''Container name is required'')
      | Some container \<Rightarrow>
          bind (lift (sanitizeName_of container)) (\<lambda>safeContainer.
            let tail = nullish_or (args ''tail'') (JNum ''100'');
                timestamps = (if args ''timestamps'' \<noteq> Some (JBool False) then ''-t'' else [])
            in bind
                 (case truthy_value (args ''since'') of
                    Some since \<Rightarrow>
                      bind (lift (sanitizeTimestamp_of since)) (\<lambda>ts. ret (''--since '' @ ts))
                  | None \<Rightarrow> ret [])
                 (\<lambda>since.
                    bind (lift (to_string tail)) (\<lambda>tail.
                      let command = ''docker logs '' @ safeContainer @ '' --tail '' @ tail @
                                    '' '' @ timestamps @ '' '' @ since @ '' 2>&1''
                      in bind (sshExec w command \<lparr>host = h, timeout = Some 60000\<rparr>)
                           (\<lambda>result.
                              if exitCode result \<noteq> 0 \<and> stdout result = []
                              then throw (Error (or_else (stderr result)
                                     (or_else (stdout result) ''Failed to get container logs'')))
                              else ret \<lparr>content_text = or_else (stdout result) (stderr result),
                                        isError = False\<rparr>)))))"

definition get_container_stats :: "world \<Rightarrow> args \<Rightarrow> string \<Rightarrow> tool_result io" where
  "get_container_stats w args h =
     bind
       (case truthy_value (args ''container'') of
          Some c \<Rightarrow> lift (sanitizeName_of c)
        | None \<Rightarrow> ret [])
       (\<lambda>container.
          let format = ''--format '' @ [dq] @ ''table {{.Name}}'' @ [bs] @ ''t{{.CPUPerc}}'' @
                       [bs] @ ''t{{.MemUsage}}'' @ [bs] @ ''t{{.NetIO}}'' @ [dq];
              command = ''docker stats --no-stream '' @ format @ '' '' @ container
          in bind (sshExec w command \<lparr>host = h, timeout = None\<rparr>) (\<lambda>result.
               if exitCode result \<noteq> 0
               then throw (Error (or_else (stderr result) ''Failed to get container stats''))
               else ret \<lparr>content_text = stdout result, isError = False\<rparr>))"

text \<open>
  \<^verbatim>\<open>data.k\<close> on a parsed value that is not \<^verbatim>\<open>null\<close> (none of the names read below is a
  property of a string, a number, a boolean or an array), and \<^verbatim>\<open>x?.k\<close> on the value
  of such a read.
\<close>

definition member :: "json \<Rightarrow> string \<Rightarrow> json option" where
  "member v k = (case v of JObj kvs \<Rightarrow> map_of kvs k | _ \<Rightarrow> None)"

definition opt_member :: "json option \<Rightarrow> string \<Rightarrow> json option" where
  "opt_member x k = (case x of None \<Rightarrow> None | Some JNull \<Rightarrow> None | Some v \<Rightarrow> member v k)"

text \<open>
  The object literal \<^verbatim>\<open>summary\<close>: its seven properties in order, each with its value or
  \<^verbatim>\<open>undefined\<close>. Reading \<^verbatim>\<open>data.Name\<close> throws when \<^verbatim>\<open>data\<close> is \<^verbatim>\<open>null\<close>.
\<close>

definition summary :: "json \<Rightarrow> error + (string \<times> json option) list" where
  "summary data =
     (if data = JNull then Inl (TypeError ''null is not an object'')
      else Inr
        [(''Name'', member data ''Name''),
         (''State'', member data ''State''),
         (''Image'', opt_member (member data ''Config'') ''Image''),
         (''Created'', member data ''Created''),
         (''Ports'', opt_member (member data ''NetworkSettings'') ''Ports''),
         (''Env'', opt_member (member data ''Config'') ''Env''),
         (''Mounts'', member data ''Mounts'')])"

text \<open>
  \<^verbatim>\<open>JSON.stringify\<close> leaves out a property whose value is \<^verbatim>\<open>undefined\<close>: these are the
  members of the object that it writes.
\<close>

fun members :: "(string \<times> json option) list \<Rightarrow> (string \<times> json) list" where
  "members [] = []"
| "members ((k, None) # ps) = members ps"
| "members ((k, Some v) # ps) = (k, v) # members ps"

definition parse :: "world \<Rightarrow> string \<Rightarrow> error + json" where
  "parse w s =
     (case JSON_parse w s of
        None \<Rightarrow> Inl (Error ''JSON Parse error'')
      | Some v \<Rightarrow> Inr v)"

definition inspect_container :: "world \<Rightarrow> args \<Rightarrow> string \<Rightarrow> tool_result io" where
  "inspect_container w args h =
     (case truthy_value (args ''container'') of
        None \<Rightarrow> throw (Error ''Container name is required'')
      | Some container \<Rightarrow>
          bind (lift (sanitizeName_of container)) (\<lambda>safeContainer.
            let command = ''docker inspect '' @ safeContainer @ '' --format '' @ [sq] @
                          ''{{json .}}'' @ [sq]
            in bind (sshExec w command \<lparr>host = h, timeout = None\<rparr>) (\<lambda>result.
                 if exitCode result \<noteq> 0
                 then throw (Error (or_else (stderr result) ''Failed to inspect container''))
                 else try_catch
                        (bind (lift (parse w (stdout result))) (\<lambda>data.
                         bind (lift (summary data)) (\<lambda>fields.
                           ret \<lparr>content_text = JSON_stringify w (JObj (members fields)),
                                isError = False\<rparr>)))
                        (\<lambda>_. ret \<lparr>content_text = stdout result, isError = False\<rparr>))))"

definition docker_compose_logs :: "world \<Rightarrow> args \<Rightarrow> string \<Rightarrow> tool_result io" where
  "docker_compose_logs w args h =
     (case truthy_value (args ''project'') of
        None \<Rightarrow> throw (Error ''Project name is required'')
      | Some project \<Rightarrow>
          bind (lift (sanitizeName_of project)) (\<lambda>safeProject.
          bind
            (case truthy_value (args ''service'') of
               Some service \<Rightarrow> lift (sanitizeName_of service)
             | None \<Rightarrow> ret [])
            (\<lambda>safeService.
               let tail = nullish_or (args ''tail'') (JNum ''100'')
               in bind (lift (to_string tail)) (\<lambda>tail.
                    let command = ''docker compose -p '' @ safeProject @ '' logs --tail '' @
                                  tail @ '' '' @ safeService @ '' 2>&1''
                    in bind (sshExec w command \<lparr>host = h, timeout = Some 60000\<rparr>)
                         (\<lambda>result.
                            if exitCode result \<noteq> 0 \<and> stdout result = []
                            then throw (Error (or_else (stderr result)
                                   (or_else (stdout result) ''Failed to get compose logs'')))
                            else ret \<lparr>content_text = or_else (stdout result) (stderr result),
                                      isError = False\<rparr>)))))"

text \<open>The \<^verbatim>\<open>switch\<close> on the tool's name: the body of the handler's \<^verbatim>\<open>try\<close>.\<close>

definition dispatch :: "world \<Rightarrow> string \<Rightarrow> args \<Rightarrow> string \<Rightarrow> tool_result io" where
  "dispatch w name args h =
     (if name = ''test-connection'' then test_connection w h
      else if name = ''list-containers'' then list_containers w args h
      else if name = ''get-container-logs'' then get_container_logs w args h
      else if name = ''get-container-stats'' then get_container_stats w args h
      else if name = ''inspect-container'' then inspect_container w args h
      else if name = ''docker-compose-logs'' then docker_compose_logs w args h
      else throw (Error (''Unknown tool: '' @ name)))"

text \<open>
  The handler of \<^verbatim>\<open>CallToolRequestSchema\<close>. The host is read and sanitized before the
  \<^verbatim>\<open>try\<close>; an exception thrown inside the \<^verbatim>\<open>try\<close> becomes a result with \<^verbatim>\<open>isError\<close>.
  The result \<open>(evs, Inl e)\<close> is the handler's promise rejected with \<open>e\<close>.
\<close>

definition call_tool :: "world \<Rightarrow> string \<Rightarrow> args \<Rightarrow> tool_result io" where
  "call_tool w name args =
     (let rawHost = (case truthy_value (args ''host'') of
                       Some v \<Rightarrow> v
                     | None \<Rightarrow> JStr (DEFAULT_SSH_HOST w))
      in bind (lift (sanitizeName_of rawHost)) (\<lambda>h.
           try_catch (dispatch w name args h)
             (\<lambda>error. ret \<lparr>content_text = ''Error: '' @ message error, isError = True\<rparr>)))"

section \<open>What the specification says, in its own words\<close>

text \<open>
  The since-timestamp forms, each as a test on the characters of the string: one or more
  digits followed by one unit letter; a date of shape \<^verbatim>\<open>dddd-dd-dd\<close>; and such a date
  followed by the letter \<^verbatim>\<open>T\<close> and a run of one or more characters that are digits or
  colons.
\<close>

definition relative_time :: "string \<Rightarrow> bool" where
  "relative_time s =
     (2 \<le> length s \<and> list_all digit (butlast s) \<and> unit_letter (last s))"

definition iso_date :: "string \<Rightarrow> bool" where
  "iso_date s =
     (length s = 10 \<and> list_all digit (take 4 s) \<and> s ! 4 = CHR ''-'' \<and>
      list_all digit (take 2 (drop 5 s)) \<and> s ! 7 = CHR ''-'' \<and>
      list_all digit (take 2 (drop 8 s)))"

definition iso_date_T_run :: "string \<Rightarrow> bool" where
  "iso_date_T_run s =
     (12 \<le> length s \<and> iso_date (take 10 s) \<and> s ! 10 = CHR ''T'' \<and>
      list_all digit_or_colon (drop 11 s))"

text \<open>
  A time of day, as the specification's third form has it after the date: hours and
  minutes, \<^verbatim>\<open>dd:dd\<close>, or hours, minutes and seconds, \<^verbatim>\<open>dd:dd:dd\<close>, each with or without
  the zone letter \<^verbatim>\<open>Z\<close>; and a date followed by \<^verbatim>\<open>T\<close> and a time of day.
\<close>

definition clock :: "string \<Rightarrow> bool" where
  "clock t =
     (length t = 5 \<and> list_all digit (take 2 t) \<and> t ! 2 = CHR '':'' \<and>
        list_all digit (drop 3 t) \<or>
      length t = 8 \<and> list_all digit (take 2 t) \<and> t ! 2 = CHR '':'' \<and>
        list_all digit (take 2 (drop 3 t)) \<and> t ! 5 = CHR '':'' \<and> list_all digit (drop 6 t))"

definition time_of_day :: "string \<Rightarrow> bool" where
  "time_of_day t = (clock t \<or> t \<noteq> [] \<and> last t = CHR ''Z'' \<and> clock (butlast t))"

definition iso_date_time :: "string \<Rightarrow> bool" where
  "iso_date_time s =
     (11 \<le> length s \<and> iso_date (take 10 s) \<and> s ! 10 = CHR ''T'' \<and> time_of_day (drop 11 s))"

text \<open>The shell metacharacters that the specification lists for the grep filter.\<close>

definition metacharacters :: "char list" where
  "metacharacters =
     [CHR '';'', CHR ''&'', CHR ''|'', CHR 0x60, CHR ''$'', CHR ''('', CHR '')'', CHR ''{'',
      CHR ''}'', CHR ''['', CHR '']'', CHR ''<'', CHR ''>'', bs, CHR ''!'', dq, sq]"

text \<open>The identifier class \<^verbatim>\<open>[A-Za-z0-9_.:-]\<close> of the specification, character by character.\<close>

definition identifier_chars :: "char list" where
  "identifier_chars =
     ''ABCDEFGHIJKLMNOPQRSTUVWXYZ'' @ ''abcdefghijklmnopqrstuvwxyz'' @ ''0123456789'' @ ''_.:-''"

text \<open>
  The identifier arguments of a call, after the table of tools of the specification: the
  host alias for every tool, the container for the three container tools, the project and
  the service for the compose logs.
\<close>

definition identifiers :: "string \<Rightarrow> string list" where
  "identifiers name =
     ''host'' #
     (if name = ''get-container-logs'' \<or> name = ''get-container-stats'' \<or>
         name = ''inspect-container'' then [''container'']
      else if name = ''docker-compose-logs'' then [''project'', ''service'']
      else [])"

text \<open>
  A well-formed request of one of the two log tools, after the table of tools of the
  specification: the host absent (the default host is then an identifier) or an
  identifier; the required container or project an identifier; \<^verbatim>\<open>since\<close> absent or a
  string of one of the accepted forms; the optional service absent or an identifier;
  \<^verbatim>\<open>tail\<close> absent or a number.
\<close>

definition identifier_value :: "json option \<Rightarrow> bool" where
  "identifier_value v =
     (case v of Some (JStr s) \<Rightarrow> s \<noteq> [] \<and> set s \<subseteq> set identifier_chars | _ \<Rightarrow> False)"

definition host_given :: "world \<Rightarrow> args \<Rightarrow> bool" where
  "host_given w args =
     (if args ''host'' = None then set (DEFAULT_SSH_HOST w) \<subseteq> set identifier_chars
      else identifier_value (args ''host''))"

definition since_given :: "json option \<Rightarrow> bool" where
  "since_given v =
     (case v of
        None \<Rightarrow> True
      | Some (JStr s) \<Rightarrow> relative_time s \<or> iso_date s \<or> iso_date_T_run s
      | _ \<Rightarrow> False)"

definition tail_given :: "json option \<Rightarrow> bool" where
  "tail_given v = (case v of None \<Rightarrow> True | Some (JNum n) \<Rightarrow> True | _ \<Rightarrow> False)"

definition log_request :: "world \<Rightarrow> string \<Rightarrow> args \<Rightarrow> bool" where
  "log_request w name args =
     (host_given w args \<and> tail_given (args ''tail'') \<and>
      (if name = ''get-container-logs''
       then identifier_value (args ''container'') \<and> since_given (args ''since'')
       else name = ''docker-compose-logs'' \<and> identifier_value (args ''project'') \<and>
            (args ''service'' = None \<or> identifier_value (args ''service''))))"

text \<open>
  The seven keys of the summary of \<^verbatim>\<open>inspect-container\<close>, and the place in the parsed
  object from which the value of each is drawn.
\<close>

definition summary_keys :: "string list" where
  "summary_keys = [''Name'', ''State'', ''Image'', ''Created'', ''Ports'', ''Env'', ''Mounts'']"

definition drawn :: "json \<Rightarrow> string \<Rightarrow> json option" where
  "drawn data k =
     (if k = ''Image'' \<or> k = ''Env'' then opt_member (member data ''Config'') k
      else if k = ''Ports'' then opt_member (member data ''NetworkSettings'') k
      else member data k)"

section \<open>Worlds for the examples\<close>

text \<open>
  A world without \<^verbatim>\<open>SSH_HOST\<close> in which every command starts the same process. Of
  \<^verbatim>\<open>JSON.parse\<close> and \<^verbatim>\<open>JSON.stringify\<close> it holds the part an example needs, as two tables:
  a text that the first table lacks does not parse.
\<close>

definition world_of :: "process \<Rightarrow> (string \<times> json) list \<Rightarrow> (json \<times> string) list \<Rightarrow> world" where
  "world_of p parses prints =
     \<lparr>SSH_HOST = None,
      spawn = (\<lambda>argv. Spawned p),
      JSON_parse = map_of parses,
      JSON_stringify = (\<lambda>v. case map_of prints v of Some s \<Rightarrow> s | None \<Rightarrow> [])\<rparr>"

text \<open>A process that exits after \<open>e\<close> milliseconds with a status and its two outputs.\<close>

definition exits :: "nat \<Rightarrow> int \<Rightarrow> string \<Rightarrow> string \<Rightarrow> process" where
  "exits e st out err =
     \<lparr>exits_at = Some e, exit_status = st, stdout_text = Inr out, stderr_text = Inr err\<rparr>"

text \<open>A process that never exits.\<close>

definition hangs :: process where
  "hangs = \<lparr>exits_at = None, exit_status = 0, stdout_text = Inr [], stderr_text = Inr []\<rparr>"

text \<open>
  An output of \<^verbatim>\<open>docker inspect\<close> cut down to three members, the value \<^verbatim>\<open>JSON.parse\<close> gives
  for it, and the text \<^verbatim>\<open>JSON.stringify(v, null, 2)\<close> gives for the object with the
  members \<^verbatim>\<open>Name\<close> and \<^verbatim>\<open>Image\<close>.
\<close>

definition inspect_output :: string where
  \<open>inspect_output = ''{"Name":"/web","Config":{"Image":"nginx"},"Id":"abc"}''\<close>

definition inspect_value :: json where
  "inspect_value =
     JObj [(''Name'', JStr ''/web''),
           (''Config'', JObj [(''Image'', JStr ''nginx'')]),
           (''Id'', JStr ''abc'')]"

definition inspect_summary_text :: string where
  \<open>inspect_summary_text =
     ''{'' @ [CHR 0x0A] @ ''  "Name": "/web",'' @ [CHR 0x0A] @ ''  "Image": "nginx"'' @
     [CHR 0x0A] @ ''}''\<close>

section \<open>The language of a regular expression\<close>

text \<open>
  The strings a regular expression denotes; \<^const>\<open>test\<close> decides membership
  (\<open>test_lang\<close> below).
\<close>

inductive_set star :: "string set \<Rightarrow> string set" for L :: "string set" where
  star_nil: "[] \<in> star L"
| star_app: "u \<in> L \<Longrightarrow> v \<in> star L \<Longrightarrow> u @ v \<in> star L"

fun lang :: "regex \<Rightarrow> string set" where
  "lang Never = {}"
| "lang Empty = {[]}"
| "lang (Class p) = {[c] | c. p c}"
| "lang (Alt r s) = lang r \<union> lang s"
| "lang (Seq r s) = {u @ v | u v. u \<in> lang r \<and> v \<in> lang s}"
| "lang (Star r) = star (lang r)"

section \<open>Derivatives decide the language\<close>

lemma nullable_lang: "nullable r \<longleftrightarrow> [] \<in> lang r"
  by (induction r) (auto intro: star_nil)

lemma star_uncons:
  assumes "x \<in> star L" and "x = c # s"
  shows "\<exists>u v. s = u @ v \<and> c # u \<in> L \<and> v \<in> star L"
  using assms
proof (induction arbitrary: s rule: star.induct)
  case star_nil
  then show ?case by simp
next
  case (star_app u v)
  show ?case
  proof (cases u)
    case Nil
    with star_app show ?thesis by simp
  next
    case (Cons a u')
    with star_app.prems have "a = c" and "s = u' @ v" by simp_all
    with Cons star_app.hyps show ?thesis by blast
  qed
qed

lemma deriv_lang: "s \<in> lang (deriv c r) \<longleftrightarrow> c # s \<in> lang r"
proof (induction r arbitrary: s)
  case (Seq r1 r2)
  show ?case
  proof
    assume "s \<in> lang (deriv c (Seq r1 r2))"
    then consider (left) u v where "s = u @ v" "u \<in> lang (deriv c r1)" "v \<in> lang r2"
      | (right) "nullable r1" "s \<in> lang (deriv c r2)"
      by (auto split: if_splits)
    then show "c # s \<in> lang (Seq r1 r2)"
    proof cases
      case left
      then have "c # u \<in> lang r1" using Seq.IH(1) by simp
      with left have "(c # u) @ v \<in> lang (Seq r1 r2)" by (simp del: append_Cons) blast
      with left show ?thesis by simp
    next
      case right
      then have "[] \<in> lang r1" "c # s \<in> lang r2"
        using Seq.IH(2) by (simp_all add: nullable_lang)
      then have "[] @ (c # s) \<in> lang (Seq r1 r2)" by (simp del: append_Nil) blast
      then show ?thesis by simp
    qed
  next
    assume "c # s \<in> lang (Seq r1 r2)"
    then obtain u v where uv: "c # s = u @ v" "u \<in> lang r1" "v \<in> lang r2" by auto
    show "s \<in> lang (deriv c (Seq r1 r2))"
    proof (cases u)
      case Nil
      with uv have "nullable r1" "s \<in> lang (deriv c r2)"
        using Seq.IH(2) by (simp_all add: nullable_lang)
      then show ?thesis by simp
    next
      case (Cons a u')
      with uv have "u' \<in> lang (deriv c r1)" "s = u' @ v" using Seq.IH(1) by simp_all
      with uv(3) show ?thesis by auto
    qed
  qed
next
  case (Star r)
  show ?case
  proof
    assume "s \<in> lang (deriv c (Star r))"
    then obtain u v where "s = u @ v" "u \<in> lang (deriv c r)" "v \<in> star (lang r)" by auto
    then have "(c # u) @ v \<in> star (lang r)" using Star.IH by (intro star_app) simp_all
    with \<open>s = u @ v\<close> show "c # s \<in> lang (Star r)" by simp
  next
    assume "c # s \<in> lang (Star r)"
    then obtain u v where "s = u @ v" "c # u \<in> lang r" "v \<in> star (lang r)"
      using star_uncons [of "c # s" "lang r" c s] by auto
    then show "s \<in> lang (deriv c (Star r))" using Star.IH by auto
  qed
qed auto

lemma test_lang: "test r s \<longleftrightarrow> s \<in> lang r"
  by (induction s arbitrary: r) (simp_all add: nullable_lang deriv_lang)

subsection \<open>The languages of the pieces of the timestamp pattern\<close>

lemma star_class: "s \<in> star {[c] | c. p c} \<longleftrightarrow> list_all p s"
proof
  assume "s \<in> star {[c] | c. p c}"
  then show "list_all p s" by (induction rule: star.induct) auto
next
  assume "list_all p s"
  then show "s \<in> star {[c] | c. p c}"
  proof (induction s)
    case Nil
    show ?case by (rule star_nil)
  next
    case (Cons c s)
    then have "[c] \<in> {[c] | c. p c}" and "s \<in> star {[c] | c. p c}" by simp_all
    then have "[c] @ s \<in> star {[c] | c. p c}" by (rule star_app)
    then show ?case by simp
  qed
qed

lemma lang_seq_class:
  "s \<in> lang (Seq (Class p) r) \<longleftrightarrow> 0 < length s \<and> p (s ! 0) \<and> drop 1 s \<in> lang r"
proof (cases s)
  case Nil
  then show ?thesis by simp
next
  case (Cons c t)
  have "c # t \<in> lang (Seq (Class p) r) \<longleftrightarrow> p c \<and> t \<in> lang r"
  proof
    assume "c # t \<in> lang (Seq (Class p) r)"
    then show "p c \<and> t \<in> lang r" by (auto simp: Cons_eq_append_conv)
  next
    assume "p c \<and> t \<in> lang r"
    then have "[c] \<in> lang (Class p)" and "t \<in> lang r" by simp_all
    then have "[c] @ t \<in> lang (Seq (Class p) r)"
      by (simp del: append_Cons append_Nil) blast
    then show "c # t \<in> lang (Seq (Class p) r)" by simp
  qed
  with Cons show ?thesis by simp
qed

lemma lang_plus_class: "s \<in> lang (Plus (Class p)) \<longleftrightarrow> s \<noteq> [] \<and> list_all p s"
  unfolding Plus_def lang_seq_class by (cases s) (simp_all add: star_class)

lemma lang_seq_assoc: "lang (Seq (Seq a b) r) = lang (Seq a (Seq b r))"
proof
  show "lang (Seq (Seq a b) r) \<subseteq> lang (Seq a (Seq b r))"
  proof
    fix s assume "s \<in> lang (Seq (Seq a b) r)"
    then obtain u v x where "s = (u @ v) @ x" "u \<in> lang a" "v \<in> lang b" "x \<in> lang r"
      by auto
    then have "s = u @ (v @ x)" and "u \<in> lang a" and "v @ x \<in> lang (Seq b r)" by auto
    then show "s \<in> lang (Seq a (Seq b r))" by (simp del: append_assoc) blast
  qed
next
  show "lang (Seq a (Seq b r)) \<subseteq> lang (Seq (Seq a b) r)"
  proof
    fix s assume "s \<in> lang (Seq a (Seq b r))"
    then obtain u v x where "s = u @ (v @ x)" "u \<in> lang a" "v \<in> lang b" "x \<in> lang r"
      by auto
    then have "s = (u @ v) @ x" and "u @ v \<in> lang (Seq a b)" and "x \<in> lang r" by auto
    then show "s \<in> lang (Seq (Seq a b) r)" by (simp del: append_assoc) blast
  qed
qed

lemma lang_seq_times:
  "s \<in> lang (Seq (Times n (Class p)) r) \<longleftrightarrow>
     n \<le> length s \<and> list_all p (take n s) \<and> drop n s \<in> lang r"
proof (induction n arbitrary: s)
  case 0
  show ?case by simp
next
  case (Suc n)
  have "s \<in> lang (Seq (Times (Suc n) (Class p)) r) \<longleftrightarrow>
          s \<in> lang (Seq (Class p) (Seq (Times n (Class p)) r))"
    using lang_seq_assoc [of "Class p" "Times n (Class p)" r] by simp
  also have "\<dots> \<longleftrightarrow>
      Suc n \<le> length s \<and> list_all p (take (Suc n) s) \<and> drop (Suc n) s \<in> lang r"
    unfolding lang_seq_class Suc.IH by (cases s) auto
  finally show ?case .
qed

lemma lang_opt: "s \<in> lang (Opt r) \<longleftrightarrow> s = [] \<or> s \<in> lang r"
  by (auto simp: Opt_def)

lemma lang_relative:
  "s \<in> lang (Seq (Plus (Class digit)) (Class unit_letter)) \<longleftrightarrow> relative_time s"
proof (cases s rule: rev_cases)
  case Nil
  then show ?thesis by (auto simp: relative_time_def lang_plus_class)
next
  case (snoc ds u)
  then show ?thesis by (auto simp: relative_time_def lang_plus_class Suc_le_eq)
qed

lemma lang_dated:
  "s \<in> lang (Seq (Times 4 (Class digit))
         (Seq (Class (\<lambda>c. c = CHR ''-''))
           (Seq (Times 2 (Class digit))
             (Seq (Class (\<lambda>c. c = CHR ''-''))
               (Seq (Times 2 (Class digit))
                 (Opt (Seq (Class (\<lambda>c. c = CHR ''T'')) (Plus (Class digit_or_colon)))))))))
   \<longleftrightarrow> iso_date s \<or> iso_date_T_run s"
  unfolding lang_seq_times lang_seq_class lang_opt lang_plus_class
  by (auto simp: iso_date_def iso_date_T_run_def min_def drop_take)

lemma test_timestamp_regex:
  "test timestamp_regex s \<longleftrightarrow> relative_time s \<or> iso_date s \<or> iso_date_T_run s"
  unfolding test_lang timestamp_regex_def lang.simps(4) Un_iff lang_relative lang_dated ..

lemma digit_eval: "digit c \<longleftrightarrow> c \<in> set ''0123456789''"
proof -
  have "digit c \<longleftrightarrow> (of_char c :: nat) \<in> set [48 ..< 58]"
    unfolding digit_def in_range_def set_upt by auto
  also have "\<dots> \<longleftrightarrow> (of_char c :: nat) \<in> of_char ` set ''0123456789''"
    by simp
  also have "\<dots> \<longleftrightarrow> c \<in> set ''0123456789''"
    by (rule inj_image_mem_iff) (simp add: inj_on_def)
  finally show ?thesis .
qed

text \<open>
  C6, as the code has it. \<^verbatim>\<open>sanitizeTimestamp\<close> returns its input unchanged exactly for
  the strings of one of the forms: one or more digits followed by one of the unit letters
  \<^verbatim>\<open>s\<close>, \<^verbatim>\<open>m\<close>, \<^verbatim>\<open>h\<close>, \<^verbatim>\<open>d\<close>; a date \<^verbatim>\<open>dddd-dd-dd\<close>; such a date followed by the
  letter \<^verbatim>\<open>T\<close> and one or more characters, each a digit or a colon. It throws
  \<^verbatim>\<open>Invalid timestamp format\<close> for every other string. It accepts \<^verbatim>\<open>1h\<close>, \<^verbatim>\<open>30m\<close>,
  \<^verbatim>\<open>2024-01-01\<close> and \<^verbatim>\<open>2024-01-01T10:00:00\<close>, and throws for \<^verbatim>\<open>1 hour\<close> and
  \<^verbatim>\<open>; rm -rf /\<close>.
\<close>

theorem sanitizeTimestamp_accepts_exactly:
  "sanitizeTimestamp s =
     (if relative_time s \<or> iso_date s \<or> iso_date_T_run s then Inr s
      else Inl (Error (''Invalid timestamp format: '' @ s)))
   \<and> sanitizeTimestamp ''1h'' = Inr ''1h''
   \<and> sanitizeTimestamp ''30m'' = Inr ''30m''
   \<and> sanitizeTimestamp ''2024-01-01'' = Inr ''2024-01-01''
   \<and> sanitizeTimestamp ''2024-01-01T10:00:00'' = Inr ''2024-01-01T10:00:00''
   \<and> sanitizeTimestamp ''1 hour'' = Inl (Error ''Invalid timestamp format: 1 hour'')
   \<and> sanitizeTimestamp ''; rm -rf /'' = Inl (Error ''Invalid timestamp format: ; rm -rf /'')"
proof -
  have general: "sanitizeTimestamp s =
     (if relative_time s \<or> iso_date s \<or> iso_date_T_run s then Inr s
      else Inl (Error (''Invalid timestamp format: '' @ s)))" for s
    by (simp add: sanitizeTimestamp_def test_timestamp_regex)
  have "relative_time ''1h''" and "relative_time ''30m''"
    by (simp_all add: relative_time_def digit_eval unit_letter_def)
  moreover have "iso_date ''2024-01-01''"
    by (simp add: iso_date_def digit_eval)
  moreover have "iso_date_T_run ''2024-01-01T10:00:00''"
    by (simp add: iso_date_T_run_def iso_date_def digit_or_colon_def digit_eval)
  moreover have "\<not> relative_time ''1 hour''" and "\<not> relative_time ''; rm -rf /''"
    by (simp_all add: relative_time_def unit_letter_def)
  moreover have "\<not> iso_date ''1 hour''" and "\<not> iso_date ''; rm -rf /''"
    by (simp_all add: iso_date_def)
  moreover have "\<not> iso_date_T_run ''1 hour''" and "\<not> iso_date_T_run ''; rm -rf /''"
    by (simp_all add: iso_date_T_run_def)
  ultimately show ?thesis
    by (simp add: general)
qed

text \<open>
  The claim C6 as the specification states it fails, in both directions. What may follow
  the date is not a time of day but any run of digits and colons after \<^verbatim>\<open>T\<close>: the
  strings \<^verbatim>\<open>2024-01-01T::\<close> and \<^verbatim>\<open>2024-01-01T9\<close> are returned unchanged and are of none
  of the forms of the specification. And a date followed by a time of day with the zone
  letter, \<^verbatim>\<open>2024-01-01T10:00:00Z\<close>, is of the third form and is rejected.
\<close>

theorem sanitizeTimestamp_counterexample:
  "sanitizeTimestamp ''2024-01-01T::'' = Inr ''2024-01-01T::''
   \<and> \<not> (relative_time ''2024-01-01T::'' \<or> iso_date ''2024-01-01T::'' \<or>
         iso_date_time ''2024-01-01T::'')
   \<and> sanitizeTimestamp ''2024-01-01T9'' = Inr ''2024-01-01T9''
   \<and> \<not> (relative_time ''2024-01-01T9'' \<or> iso_date ''2024-01-01T9'' \<or>
         iso_date_time ''2024-01-01T9'')
   \<and> iso_date_time ''2024-01-01T10:00:00Z''
   \<and> sanitizeTimestamp ''2024-01-01T10:00:00Z''
       = Inl (Error ''Invalid timestamp format: 2024-01-01T10:00:00Z'')"
proof -
  have decided: "sanitizeTimestamp s =
     (if relative_time s \<or> iso_date s \<or> iso_date_T_run s then Inr s
      else Inl (Error (''Invalid timestamp format: '' @ s)))" for s
    by (simp add: sanitizeTimestamp_def test_timestamp_regex)
  have "iso_date_T_run ''2024-01-01T::''" "iso_date_T_run ''2024-01-01T9''"
    by (simp_all add: iso_date_T_run_def iso_date_def digit_or_colon_def digit_eval)
  moreover have "\<not> relative_time ''2024-01-01T::''" "\<not> relative_time ''2024-01-01T9''"
    "\<not> relative_time ''2024-01-01T10:00:00Z''"
    by (simp_all add: relative_time_def unit_letter_def digit_eval)
  moreover have "\<not> iso_date ''2024-01-01T::''" "\<not> iso_date ''2024-01-01T9''"
    "\<not> iso_date ''2024-01-01T10:00:00Z''"
    by (simp_all add: iso_date_def)
  moreover have "\<not> iso_date_time ''2024-01-01T::''" "\<not> iso_date_time ''2024-01-01T9''"
    by (simp_all add: iso_date_time_def time_of_day_def clock_def digit_eval)
  moreover have "iso_date_time ''2024-01-01T10:00:00Z''"
    by (simp add: iso_date_time_def time_of_day_def clock_def iso_date_def digit_eval)
  moreover have "\<not> iso_date_T_run ''2024-01-01T10:00:00Z''"
    by (simp add: iso_date_T_run_def digit_or_colon_def digit_eval)
  ultimately show ?thesis
    by (simp add: decided)
qed

section \<open>The grep filter\<close>

lemma replace_all_delete: "replace_all p [] s = filter (\<lambda>c. \<not> p c) s"
  by (induction s) (simp_all add: replace_all_def)

lemma shell_meta_metacharacters: "shell_meta c \<longleftrightarrow> c \<in> set metacharacters"
  by (auto simp: shell_meta_def metacharacters_def)

lemma sanitizeGrepPattern_filter:
  "sanitizeGrepPattern s = filter (\<lambda>c. c \<notin> set metacharacters) s"
  by (simp add: sanitizeGrepPattern_def replace_all_delete shell_meta_metacharacters)

text \<open>
  C7. On every string \<^verbatim>\<open>sanitizeGrepPattern\<close> returns (it has no \<^verbatim>\<open>throw\<close>) the input
  without its occurrences of the seventeen shell metacharacters
  \<^verbatim>\<open>; & | ` $ ( ) { } [ ] < > \ ! " '\<close>: every other character stays, in order. Spaces and
  the regular-expression syntax \<^verbatim>\<open>.*\<close> are among the characters that stay.
\<close>

theorem sanitizeGrepPattern_strips_exactly:
  "sanitizeGrepPattern_of (JStr s) = Inr (sanitizeGrepPattern s)
   \<and> sanitizeGrepPattern s = filter (\<lambda>c. c \<notin> set metacharacters) s
   \<and> CHR '' '' \<notin> set metacharacters \<and> CHR ''.'' \<notin> set metacharacters
   \<and> CHR ''*'' \<notin> set metacharacters
   \<and> sanitizeGrepPattern ''web .*; rm $(x) | `y`'' = ''web .* rm x  y''"
proof -
  have "sanitizeGrepPattern_of (JStr s) = Inr (sanitizeGrepPattern s)"
    by (simp add: sanitizeGrepPattern_of_def)
  moreover have "CHR '' '' \<notin> set metacharacters" "CHR ''.'' \<notin> set metacharacters"
    "CHR ''*'' \<notin> set metacharacters"
    by (simp_all add: metacharacters_def)
  moreover have "sanitizeGrepPattern ''web .*; rm $(x) | `y`'' = ''web .* rm x  y''"
    by (simp add: sanitizeGrepPattern_filter metacharacters_def)
  ultimately show ?thesis
    using sanitizeGrepPattern_filter [of s] by simp
qed

text \<open>
  C10. \<^verbatim>\<open>sanitizeGrepPattern\<close> is idempotent, and its output holds none of the shell
  metacharacters that it strips.
\<close>

theorem sanitizeGrepPattern_idempotent:
  "sanitizeGrepPattern (sanitizeGrepPattern s) = sanitizeGrepPattern s
   \<and> set (sanitizeGrepPattern s) \<inter> set metacharacters = {}"
proof
  show "sanitizeGrepPattern (sanitizeGrepPattern s) = sanitizeGrepPattern s"
    by (simp add: sanitizeGrepPattern_filter)
next
  show "set (sanitizeGrepPattern s) \<inter> set metacharacters = {}"
    unfolding sanitizeGrepPattern_filter by auto
qed

section \<open>The remote executor\<close>

lemma str_includes_prefix: "take (length t) s = t \<Longrightarrow> str_includes s t"
  by (cases s) auto

lemma str_includes_middle: "str_includes (a @ t @ b) t"
proof (induction a)
  case Nil
  show ?case by (rule str_includes_prefix) simp
next
  case (Cons c a)
  then show ?case by simp
qed

lemma timed_out_message: "str_includes (message (timed_out t)) ''timed out''"
proof -
  have "message (timed_out t) =
          ''SSH command '' @ ''timed out'' @ ('' after '' @ digits_of t @ ''ms'')"
    by (simp add: timed_out_def)
  then show ?thesis by (simp only: str_includes_middle)
qed

lemma sshExec_spawn_throws:
  assumes "spawn w (ssh_argv h cmd)
             = SpawnThrows e"
  shows "sshExec w cmd \<lparr>host = h, timeout = t\<rparr>
           = ([Spawn (ssh_argv h cmd)],
              Inl e)"
  using assms by (simp add: sshExec_def)

lemma sshExec_timer_first:
  assumes "spawn w (ssh_argv h cmd)
             = Spawned p"
    and "t = (case t' of None \<Rightarrow> 30000 | Some n \<Rightarrow> n)"
    and "case exits_at p of None \<Rightarrow> True | Some e \<Rightarrow> t \<le> e"
  shows "sshExec w cmd \<lparr>host = h, timeout = t'\<rparr>
           = ([Spawn (ssh_argv h cmd), Kill],
              Inl (timed_out t))"
proof -
  have "race p t = ([Kill], Inl (timed_out t))"
    using assms(3) by (simp add: race_def split: option.splits)
  then show ?thesis
    using assms(1,2) timed_out_message [of t]
    by (simp add: sshExec_def bind_def try_catch_def throw_def)
qed

lemma sshExec_exits:
  assumes "spawn w (ssh_argv h cmd)
             = Spawned p"
    and "t = (case t' of None \<Rightarrow> 30000 | Some n \<Rightarrow> n)"
    and "exits_at p = Some e" and "e < t"
    and "stdout_text p = Inr out" and "stderr_text p = Inr err"
  shows "sshExec w cmd \<lparr>host = h, timeout = t'\<rparr>
           = ([Spawn (ssh_argv h cmd)],
              Inr \<lparr>stdout = trim out, stderr = trim err, exitCode = exit_status p\<rparr>)"
proof -
  have "race p t = ([], Inr (exit_status p))"
    using assms(3,4) by (simp add: race_def)
  then show ?thesis
    using assms(1,2,5,6)
    by (simp add: sshExec_def bind_def try_catch_def ret_def lift_def)
qed

lemma sshExec_read_fails:
  assumes "spawn w (ssh_argv h cmd)
             = Spawned p"
    and "t = (case t' of None \<Rightarrow> 30000 | Some n \<Rightarrow> n)"
    and "exits_at p = Some e" and "e < t"
    and "stdout_text p = Inl x \<or> (\<exists>out. stdout_text p = Inr out \<and> stderr_text p = Inl x)"
  shows "\<exists>x'. sshExec w cmd \<lparr>host = h, timeout = t'\<rparr>
           = ([Spawn (ssh_argv h cmd)],
              Inl x')"
proof -
  have "race p t = ([], Inr (exit_status p))"
    using assms(3,4) by (simp add: race_def)
  then show ?thesis
    using assms(1,2,5)
    by (auto simp: sshExec_def bind_def try_catch_def ret_def lift_def throw_def)
qed

text \<open>Every call of \<^verbatim>\<open>sshExec\<close> starts a process: its first event is the spawn.\<close>

lemma sshExec_events: "fst (sshExec w cmd opts) \<noteq> []"
  by (auto simp: sshExec_def bind_def try_catch_def ret_def lift_def throw_def race_def Let_def
      split: spawned.splits option.splits sum.splits prod.splits)

lemma sshExec_default_timeout:
  "sshExec w cmd \<lparr>host = h, timeout = None\<rparr> = sshExec w cmd \<lparr>host = h, timeout = Some 30000\<rparr>"
  by (simp add: sshExec_def)

text \<open>
  C5. \<^verbatim>\<open>testConnection\<close> never throws. It returns true exactly when the \<^verbatim>\<open>sshExec\<close> of
  \<^verbatim>\<open>echo 'ok'\<close> returns a result with exit code 0 and (trimmed) stdout \<^verbatim>\<open>ok\<close>: that is,
  when the process exits within the 10000 ms of the call with status 0 and its output
  trims to \<^verbatim>\<open>ok\<close>. Any exception of \<^verbatim>\<open>sshExec\<close>, the timeout among them, gives false.
\<close>

theorem testConnection_true_iff:
  "snd (testConnection w h) =
     Inr (case snd (sshExec w (''echo '' @ [sq] @ ''ok'' @ [sq])
                      \<lparr>host = h, timeout = Some 10000\<rparr>) of
            Inl e \<Rightarrow> False
          | Inr result \<Rightarrow> exitCode result = 0 \<and> stdout result = ''ok'')
   \<and> snd (testConnection w h) =
     Inr (case spawn w (ssh_argv h (''echo '' @ [sq] @ ''ok'' @ [sq])) of
            SpawnThrows e \<Rightarrow> False
          | Spawned p \<Rightarrow>
              (case (exits_at p, stdout_text p, stderr_text p) of
                 (Some e, Inr out, Inr err) \<Rightarrow>
                   e < 10000 \<and> exit_status p = 0 \<and> trim out = ''ok''
               | _ \<Rightarrow> False))"
proof
  show "snd (testConnection w h) =
     Inr (case snd (sshExec w (''echo '' @ [sq] @ ''ok'' @ [sq])
                      \<lparr>host = h, timeout = Some 10000\<rparr>) of
            Inl e \<Rightarrow> False
          | Inr result \<Rightarrow> exitCode result = 0 \<and> stdout result = ''ok'')"
    by (simp add: testConnection_def bind_def try_catch_def ret_def
        split: prod.splits sum.splits)
next
  let ?cmd = "''echo '' @ [sq] @ ''ok'' @ [sq]"
  show "snd (testConnection w h) =
     Inr (case spawn w (ssh_argv h ?cmd) of
            SpawnThrows e \<Rightarrow> False
          | Spawned p \<Rightarrow>
              (case (exits_at p, stdout_text p, stderr_text p) of
                 (Some e, Inr out, Inr err) \<Rightarrow>
                   e < 10000 \<and> exit_status p = 0 \<and> trim out = ''ok''
               | _ \<Rightarrow> False))"
  proof (cases "spawn w (ssh_argv h ?cmd)")
    case (SpawnThrows e)
    then show ?thesis
      using sshExec_spawn_throws [of w h ?cmd e "Some 10000"]
      by (simp add: testConnection_def bind_def try_catch_def ret_def)
  next
    case (Spawned p)
    consider (late) "case exits_at p of None \<Rightarrow> True | Some e \<Rightarrow> 10000 \<le> e"
      | (read) e x where "exits_at p = Some e" "e < 10000"
          "stdout_text p = Inl x \<or> (\<exists>out. stdout_text p = Inr out \<and> stderr_text p = Inl x)"
      | (finished) e out err where "exits_at p = Some e" "e < 10000"
          "stdout_text p = Inr out" "stderr_text p = Inr err"
      by (cases "exits_at p"; cases "stdout_text p"; cases "stderr_text p") force+
    then show ?thesis
    proof cases
      case late
      then show ?thesis
        using Spawned sshExec_timer_first [of w h ?cmd p 10000 "Some 10000"]
        by (auto simp: testConnection_def bind_def try_catch_def ret_def
            split: option.splits sum.splits)
    next
      case read
      then obtain x' where "sshExec w ?cmd \<lparr>host = h, timeout = Some 10000\<rparr>
          = ([Spawn (ssh_argv h ?cmd)], Inl x')"
        using Spawned sshExec_read_fails [of w h ?cmd p 10000 "Some 10000" e x] by auto
      with read Spawned show ?thesis
        by (auto simp: testConnection_def bind_def try_catch_def ret_def)
    next
      case finished
      then show ?thesis
        using Spawned sshExec_exits [of w h ?cmd p 10000 "Some 10000" e out err]
        by (simp add: testConnection_def bind_def try_catch_def ret_def)
    qed
  qed
qed

theorem testConnection_true_iff_witness:
  "snd (testConnection (world_of (exits 200 0 (''ok'' @ [CHR 0x0A]) []) [] []) ''dokploy'')
     = Inr True
   \<and> snd (testConnection (world_of (exits 200 0 ''okay'' []) [] []) ''dokploy'') = Inr False
   \<and> snd (testConnection (world_of (exits 200 255 ''ok'' []) [] []) ''dokploy'') = Inr False
   \<and> snd (testConnection (world_of (exits 10000 0 ''ok'' []) [] []) ''dokploy'') = Inr False
   \<and> snd (testConnection (world_of hangs [] []) ''dokploy'') = Inr False"
proof -
  have tr: "trim (''ok'' @ [CHR 0x0A]) = ''ok''" "trim ''okay'' = ''okay''" "trim ''ok'' = ''ok''"
    by (simp_all add: trim_def trimStart_def trimEnd_def strip_leading.simps leading_def
        whitespace_def)
  show ?thesis
    using tr
      testConnection_true_iff [THEN conjunct2, of "world_of (exits 200 0 (''ok'' @ [CHR 0x0A]) []) [] []"
        "''dokploy''"]
      testConnection_true_iff [THEN conjunct2, of "world_of (exits 200 0 ''okay'' []) [] []" "''dokploy''"]
      testConnection_true_iff [THEN conjunct2, of "world_of (exits 200 255 ''ok'' []) [] []" "''dokploy''"]
      testConnection_true_iff [THEN conjunct2, of "world_of (exits 10000 0 ''ok'' []) [] []" "''dokploy''"]
      testConnection_true_iff [THEN conjunct2, of "world_of hangs [] []" "''dokploy''"]
    by (simp add: world_of_def exits_def hangs_def)
qed

section \<open>Identifiers\<close>

lemma in_range_lower:
  "in_range CHR ''a'' CHR ''z'' c \<longleftrightarrow> c \<in> set ''abcdefghijklmnopqrstuvwxyz''"
proof -
  have "in_range CHR ''a'' CHR ''z'' c \<longleftrightarrow> (of_char c :: nat) \<in> set [97 ..< 123]"
    unfolding in_range_def set_upt by auto
  also have "\<dots> \<longleftrightarrow> (of_char c :: nat) \<in> of_char ` set ''abcdefghijklmnopqrstuvwxyz''"
    by simp
  also have "\<dots> \<longleftrightarrow> c \<in> set ''abcdefghijklmnopqrstuvwxyz''"
    by (rule inj_image_mem_iff) (simp add: inj_on_def)
  finally show ?thesis .
qed

lemma in_range_upper:
  "in_range CHR ''A'' CHR ''Z'' c \<longleftrightarrow> c \<in> set ''ABCDEFGHIJKLMNOPQRSTUVWXYZ''"
proof -
  have "in_range CHR ''A'' CHR ''Z'' c \<longleftrightarrow> (of_char c :: nat) \<in> set [65 ..< 91]"
    unfolding in_range_def set_upt by auto
  also have "\<dots> \<longleftrightarrow> (of_char c :: nat) \<in> of_char ` set ''ABCDEFGHIJKLMNOPQRSTUVWXYZ''"
    by simp
  also have "\<dots> \<longleftrightarrow> c \<in> set ''ABCDEFGHIJKLMNOPQRSTUVWXYZ''"
    by (rule inj_image_mem_iff) (simp add: inj_on_def)
  finally show ?thesis .
qed

lemma name_char_identifier: "name_char c \<longleftrightarrow> c \<in> set identifier_chars"
proof -
  have "name_char c \<longleftrightarrow>
          c \<in> set ''abcdefghijklmnopqrstuvwxyz'' \<or> c \<in> set ''ABCDEFGHIJKLMNOPQRSTUVWXYZ'' \<or>
          c \<in> set ''0123456789'' \<or> c \<in> set ''_.:-''"
    unfolding name_char_def in_range_lower in_range_upper digit_eval [unfolded digit_def]
    by auto
  also have "\<dots> \<longleftrightarrow> c \<in> set identifier_chars"
    unfolding identifier_chars_def set_append Un_iff by blast
  finally show ?thesis .
qed

lemma sanitizeName_iff:
  "sanitizeName s =
     (if set s \<subseteq> set identifier_chars then Inr s
      else Inl (Error (''Invalid characters in input: '' @ s)))"
proof -
  have "filter name_char s = s \<longleftrightarrow> set s \<subseteq> set identifier_chars"
    by (auto simp: filter_id_conv name_char_identifier)
  then show ?thesis
    by (auto simp: sanitizeName_def replace_all_delete Let_def)
qed

lemma bad_identifier_truthy:
  assumes "\<not> set s \<subseteq> set identifier_chars"
  shows "truthy_value (Some (JStr s)) = Some (JStr s)"
    and "sanitizeName_of (JStr s) = Inl (Error (''Invalid characters in input: '' @ s))"
proof -
  from assms have "s \<noteq> []" by auto
  then show "truthy_value (Some (JStr s)) = Some (JStr s)"
    by (simp add: truthy_value_def)
  from assms show "sanitizeName_of (JStr s) = Inl (Error (''Invalid characters in input: '' @ s))"
    by (simp add: sanitizeName_of_def sanitizeName_iff)
qed

text \<open>The handler once the host is read: rejected, or the \<^verbatim>\<open>try\<close> with its \<^verbatim>\<open>catch\<close>.\<close>

lemma call_tool_host:
  "call_tool w name args =
     (case sanitizeName_of (case truthy_value (args ''host'') of
                              Some v \<Rightarrow> v
                            | None \<Rightarrow> JStr (DEFAULT_SSH_HOST w)) of
        Inl e \<Rightarrow> ([], Inl e)
      | Inr h \<Rightarrow>
          try_catch (dispatch w name args h)
            (\<lambda>error. ret \<lparr>content_text = ''Error: '' @ message error, isError = True\<rparr>))"
  by (simp add: call_tool_def bind_def lift_def Let_def split: sum.splits prod.splits)

lemma caught:
  "try_catch ([], Inl e)
     (\<lambda>error. ret \<lparr>content_text = ''Error: '' @ message error, isError = True\<rparr>)
   = ([], Inr \<lparr>content_text = ''Error: '' @ message e, isError = True\<rparr>)"
  by (simp add: try_catch_def ret_def)

lemma sanitizeName_of_error:
  assumes "sanitizeName_of v = Inl e"
  shows "e = no_replace \<or> (\<exists>x. e = Error (''Invalid characters in input: '' @ x))"
  using assms by (auto simp: sanitizeName_of_def sanitizeName_def Let_def split: json.splits if_splits)

lemma container_rejected:
  assumes "args ''container'' = Some (JStr s)" and "\<not> set s \<subseteq> set identifier_chars"
  shows "get_container_logs w args h = ([], Inl (Error (''Invalid characters in input: '' @ s)))"
    and "get_container_stats w args h = ([], Inl (Error (''Invalid characters in input: '' @ s)))"
    and "inspect_container w args h = ([], Inl (Error (''Invalid characters in input: '' @ s)))"
  using assms bad_identifier_truthy [OF assms(2)]
  by (simp_all add: get_container_logs_def get_container_stats_def inspect_container_def
      bind_def lift_def)

lemma project_rejected:
  assumes "args ''project'' = Some (JStr s)" and "\<not> set s \<subseteq> set identifier_chars"
  shows "docker_compose_logs w args h = ([], Inl (Error (''Invalid characters in input: '' @ s)))"
  using assms bad_identifier_truthy [OF assms(2)]
  by (simp add: docker_compose_logs_def bind_def lift_def)

lemma service_rejected:
  assumes "args ''service'' = Some (JStr s)" and "\<not> set s \<subseteq> set identifier_chars"
  shows "\<exists>e. docker_compose_logs w args h = ([], Inl e) \<and>
           (e = no_replace \<or> e = Error ''Project name is required'' \<or>
            (\<exists>x. e = Error (''Invalid characters in input: '' @ x)))"
proof (cases "truthy_value (args ''project'')")
  case None
  then show ?thesis by (simp add: docker_compose_logs_def throw_def)
next
  case (Some project)
  show ?thesis
  proof (cases "sanitizeName_of project")
    case (Inl e)
    with Some have "docker_compose_logs w args h = ([], Inl e)"
      by (simp add: docker_compose_logs_def bind_def lift_def)
    with sanitizeName_of_error [OF Inl] show ?thesis by auto
  next
    case (Inr safeProject)
    with Some assms(1) bad_identifier_truthy [OF assms(2)]
    have "docker_compose_logs w args h
            = ([], Inl (Error (''Invalid characters in input: '' @ s)))"
      by (simp add: docker_compose_logs_def bind_def lift_def)
    then show ?thesis by auto
  qed
qed

text \<open>
  C2. When an identifier argument of a tool call (the host for every tool, the container
  of the three container tools, the project or the service of the compose logs) is a
  string with a character outside \<^verbatim>\<open>[A-Za-z0-9_.:-]\<close>, the handler starts no process
  (\<^verbatim>\<open>sshExec\<close> is not called) and ends with an exception of argument validation: thrown
  (for the host) or returned as a result with \<^verbatim>\<open>isError\<close>. For a bad host the exception
  is \<^verbatim>\<open>Invalid characters in input\<close> with the host. \<^verbatim>\<open>sanitizeName\<close> returns a string of
  characters of the class unchanged and throws for every other string.
\<close>

theorem bad_identifier_rejected:
  "(k \<in> set (identifiers name) \<and> args k = Some (JStr s) \<and> \<not> set s \<subseteq> set identifier_chars
      \<longrightarrow> fst (call_tool w name args) = []
        \<and> (\<exists>e. (snd (call_tool w name args) = Inl e \<or>
                 snd (call_tool w name args) =
                   Inr \<lparr>content_text = ''Error: '' @ message e, isError = True\<rparr>)
              \<and> (e = no_replace \<or> e = Error ''Project name is required'' \<or>
                 (\<exists>x. e = Error (''Invalid characters in input: '' @ x))))
        \<and> (k = ''host'' \<longrightarrow>
             call_tool w name args = ([], Inl (Error (''Invalid characters in input: '' @ s)))))
   \<and> sanitizeName x =
       (if set x \<subseteq> set identifier_chars then Inr x
        else Inl (Error (''Invalid characters in input: '' @ x)))"
proof (intro conjI impI)
  show "sanitizeName x =
       (if set x \<subseteq> set identifier_chars then Inr x
        else Inl (Error (''Invalid characters in input: '' @ x)))"
    by (rule sanitizeName_iff)
next
  assume "k \<in> set (identifiers name) \<and> args k = Some (JStr s) \<and>
          \<not> set s \<subseteq> set identifier_chars"
    and "k = ''host''"
  then show "call_tool w name args = ([], Inl (Error (''Invalid characters in input: '' @ s)))"
    using bad_identifier_truthy [of s] by (simp add: call_tool_host)
next
  assume hyp: "k \<in> set (identifiers name) \<and> args k = Some (JStr s) \<and>
               \<not> set s \<subseteq> set identifier_chars"
  then have k: "k \<in> set (identifiers name)" and arg: "args k = Some (JStr s)"
    and bad: "\<not> set s \<subseteq> set identifier_chars" by simp_all
  let ?ok = "\<lambda>e. e = no_replace \<or> e = Error ''Project name is required'' \<or>
                  (\<exists>x. e = Error (''Invalid characters in input: '' @ x))"
  let ?raw = "case truthy_value (args ''host'') of
                Some v \<Rightarrow> v | None \<Rightarrow> JStr (DEFAULT_SSH_HOST w)"
  have "\<exists>e. ?ok e \<and> (call_tool w name args = ([], Inl e) \<or>
              call_tool w name args =
                ([], Inr \<lparr>content_text = ''Error: '' @ message e, isError = True\<rparr>))"
  proof (cases "sanitizeName_of ?raw")
    case (Inl e)
    then have "call_tool w name args = ([], Inl e)" by (simp add: call_tool_host)
    with sanitizeName_of_error [OF Inl] show ?thesis by auto
  next
    case (Inr h)
    then have ct: "call_tool w name args =
        try_catch (dispatch w name args h)
          (\<lambda>error. ret \<lparr>content_text = ''Error: '' @ message error, isError = True\<rparr>)"
      by (simp add: call_tool_host)
    have "k \<noteq> ''host''"
    proof
      assume "k = ''host''"
      with arg bad bad_identifier_truthy [OF bad] Inr show False by simp
    qed
    with k consider
        (container) "k = ''container''"
          "name = ''get-container-logs'' \<or> name = ''get-container-stats'' \<or>
           name = ''inspect-container''"
      | (project) "k = ''project''" "name = ''docker-compose-logs''"
      | (service) "k = ''service''" "name = ''docker-compose-logs''"
      by (auto simp: identifiers_def split: if_splits)
    then have "\<exists>e. ?ok e \<and> dispatch w name args h = ([], Inl e)"
    proof cases
      case container
      with arg container_rejected [of args s w h, OF _ bad]
      have "dispatch w name args h = ([], Inl (Error (''Invalid characters in input: '' @ s)))"
        by (auto simp: dispatch_def)
      then show ?thesis by auto
    next
      case project
      with arg project_rejected [of args s w h, OF _ bad]
      have "dispatch w name args h = ([], Inl (Error (''Invalid characters in input: '' @ s)))"
        by (simp add: dispatch_def)
      then show ?thesis by auto
    next
      case service
      with arg obtain e where "docker_compose_logs w args h = ([], Inl e)" and "?ok e"
        using service_rejected [of args s w h, OF _ bad] by blast
      moreover have "dispatch w name args h = docker_compose_logs w args h"
        using service by (simp add: dispatch_def)
      ultimately show ?thesis by (intro exI [of _ e]) simp
    qed
    then obtain e where "?ok e" and "dispatch w name args h = ([], Inl e)" by blast
    with ct caught [of e] show ?thesis by auto
  qed
  then obtain e where ok: "?ok e"
    and res: "call_tool w name args = ([], Inl e) \<or>
              call_tool w name args =
                ([], Inr \<lparr>content_text = ''Error: '' @ message e, isError = True\<rparr>)"
    by blast
  from res show "fst (call_tool w name args) = []" by auto
  show "\<exists>e. (snd (call_tool w name args) = Inl e \<or>
                 snd (call_tool w name args) =
                   Inr \<lparr>content_text = ''Error: '' @ message e, isError = True\<rparr>)
              \<and> (e = no_replace \<or> e = Error ''Project name is required'' \<or>
                 (\<exists>x. e = Error (''Invalid characters in input: '' @ x)))"
  proof (intro exI conjI)
    from res show "snd (call_tool w name args) = Inl e \<or>
                 snd (call_tool w name args) =
                   Inr \<lparr>content_text = ''Error: '' @ message e, isError = True\<rparr>"
      by auto
    from ok show "?ok e" .
  qed
qed

theorem bad_identifier_rejected_witness:
  "''service'' \<in> set (identifiers ''docker-compose-logs'')
   \<and> [''project'' \<mapsto> JStr ''shop'', ''service'' \<mapsto> JStr ''web; reboot''] ''service''
       = Some (JStr ''web; reboot'')
   \<and> \<not> set ''web; reboot'' \<subseteq> set identifier_chars
   \<and> fst (call_tool (world_of hangs [] []) ''docker-compose-logs''
            [''project'' \<mapsto> JStr ''shop'', ''service'' \<mapsto> JStr ''web; reboot'']) = []
   \<and> ''host'' \<in> set (identifiers ''list-containers'')
   \<and> \<not> set ''prod; id'' \<subseteq> set identifier_chars
   \<and> call_tool (world_of hangs [] []) ''list-containers'' [''host'' \<mapsto> JStr ''prod; id'']
       = ([], Inl (Error ''Invalid characters in input: prod; id''))
   \<and> sanitizeName ''my-app_1.web:2'' = Inr ''my-app_1.web:2''"
proof -
  have pre: "''service'' \<in> set (identifiers ''docker-compose-logs'')"
    "[''project'' \<mapsto> JStr ''shop'', ''service'' \<mapsto> JStr ''web; reboot''] ''service''
       = Some (JStr ''web; reboot'')"
    "\<not> set ''web; reboot'' \<subseteq> set identifier_chars"
    by (simp_all add: identifiers_def identifier_chars_def)
  have good: "set ''my-app_1.web:2'' \<subseteq> set identifier_chars"
    by (simp add: identifier_chars_def)
  have pre_host: "''host'' \<in> set (identifiers ''list-containers'')"
    "\<not> set ''prod; id'' \<subseteq> set identifier_chars"
    by (simp_all add: identifiers_def identifier_chars_def)
  show ?thesis
    using pre good pre_host
      bad_identifier_rejected [of "''host''" "''list-containers''"
        "[''host'' \<mapsto> JStr ''prod; id'']" "''prod; id''" "world_of hangs [] []"
        "''my-app_1.web:2''"]
      bad_identifier_rejected [of "''service''" "''docker-compose-logs''"
        "[''project'' \<mapsto> JStr ''shop'', ''service'' \<mapsto> JStr ''web; reboot'']"
        "''web; reboot''" "world_of hangs [] []" "''my-app_1.web:2''"]
    by simp
qed

section \<open>The handler\<close>

lemma bind_lift_Inl: "bind (lift (Inl e)) f = ([], Inl e)"
  by (simp add: bind_def lift_def)

lemma bind_lift_Inr: "bind (lift (Inr x)) f = f x"
  by (simp add: bind_def lift_def split: prod.splits)

lemma bind_ret: "bind (ret x) f = f x"
  by (simp add: bind_def ret_def split: prod.splits)

lemma bind_Inl: "bind (evs, Inl e) f = (evs, Inl e)"
  by (simp add: bind_def)

lemma sshExec_first:
  "\<exists>evs r. sshExec w cmd \<lparr>host = h, timeout = t\<rparr> = (Spawn (ssh_argv h cmd) # evs, r)"
  by (auto simp: sshExec_def bind_def try_catch_def ret_def lift_def throw_def race_def Let_def
      split: spawned.splits option.splits sum.splits prod.splits)

lemma bind_sshExec_first:
  "\<exists>evs r. bind (sshExec w cmd \<lparr>host = h, timeout = t\<rparr>) f = (Spawn (ssh_argv h cmd) # evs, r)"
proof -
  obtain evs r where "sshExec w cmd \<lparr>host = h, timeout = t\<rparr> = (Spawn (ssh_argv h cmd) # evs, r)"
    using sshExec_first by blast
  then show ?thesis by (cases r) (auto simp: bind_def split: prod.splits)
qed

lemma bind_sshExec_events: "fst (bind (sshExec w cmd opts) f) \<noteq> []"
  using sshExec_events [of w cmd opts]
  by (auto simp: bind_def split: prod.splits sum.splits)

lemma call_tool_reached:
  assumes "sanitizeName_of (case truthy_value (args ''host'') of
                              Some v \<Rightarrow> v | None \<Rightarrow> JStr (DEFAULT_SSH_HOST w)) = Inr h"
    and "fst (dispatch w name args h) \<noteq> []"
  shows "fst (call_tool w name args) \<noteq> []"
  using assms by (auto simp: call_tool_host try_catch_def split: prod.splits sum.splits)

text \<open>
  The two log tools either throw while they validate their arguments and build the
  command, before any event, or run one command with a timeout of 60000 ms and shape its
  result.
\<close>

lemma get_container_logs_form:
  "(\<exists>e. get_container_logs w args h = ([], Inl e)) \<or>
   (\<exists>cmd. get_container_logs w args h =
      bind (sshExec w cmd \<lparr>host = h, timeout = Some 60000\<rparr>) (\<lambda>result.
        if exitCode result \<noteq> 0 \<and> stdout result = []
        then throw (Error (or_else (stderr result)
               (or_else (stdout result) ''Failed to get container logs'')))
        else ret \<lparr>content_text = or_else (stdout result) (stderr result), isError = False\<rparr>))"
proof (cases "truthy_value (args ''container'')")
  case None
  then show ?thesis by (simp add: get_container_logs_def throw_def)
next
  case container: (Some c)
  show ?thesis
  proof (cases "sanitizeName_of c")
    case (Inl e)
    with container show ?thesis by (simp add: get_container_logs_def bind_lift_Inl)
  next
    case safe: (Inr safeContainer)
    consider (bad_since) v e where "truthy_value (args ''since'') = Some v"
          "sanitizeTimestamp_of v = Inl e"
      | (bad_tail) e where "to_string (nullish_or (args ''tail'') (JNum ''100'')) = Inl e"
      | (no_since) t where "truthy_value (args ''since'') = None"
          "to_string (nullish_or (args ''tail'') (JNum ''100'')) = Inr t"
      | (since) v ts t where "truthy_value (args ''since'') = Some v"
          "sanitizeTimestamp_of v = Inr ts"
          "to_string (nullish_or (args ''tail'') (JNum ''100'')) = Inr t"
    proof (cases "to_string (nullish_or (args ''tail'') (JNum ''100''))")
      case (Inl e)
      then show ?thesis by (rule bad_tail)
    next
      case tail: (Inr t)
      show ?thesis
      proof (cases "truthy_value (args ''since'')")
        case None
        then show ?thesis using tail by (rule no_since)
      next
        case (Some v)
        with tail show ?thesis
          by (cases "sanitizeTimestamp_of v") (auto intro: bad_since since)
      qed
    qed
    then show ?thesis
    proof cases
      case bad_since
      with container safe show ?thesis
        by (simp add: get_container_logs_def bind_lift_Inr bind_lift_Inl bind_Inl Let_def)
    next
      case bad_tail
      with container safe show ?thesis
        by (cases "truthy_value (args ''since'')"; cases "sanitizeTimestamp_of
              (case truthy_value (args ''since'') of Some v \<Rightarrow> v | None \<Rightarrow> JNull)")
          (simp_all add: get_container_logs_def bind_lift_Inr bind_lift_Inl bind_Inl bind_ret
            Let_def)
    next
      case no_since
      with container safe show ?thesis
        by (simp add: get_container_logs_def bind_lift_Inr bind_ret Let_def) blast
    next
      case since
      with container safe show ?thesis
        by (simp add: get_container_logs_def bind_lift_Inr bind_ret Let_def) blast
    qed
  qed
qed

lemma docker_compose_logs_form:
  "(\<exists>e. docker_compose_logs w args h = ([], Inl e)) \<or>
   (\<exists>cmd. docker_compose_logs w args h =
      bind (sshExec w cmd \<lparr>host = h, timeout = Some 60000\<rparr>) (\<lambda>result.
        if exitCode result \<noteq> 0 \<and> stdout result = []
        then throw (Error (or_else (stderr result)
               (or_else (stdout result) ''Failed to get compose logs'')))
        else ret \<lparr>content_text = or_else (stdout result) (stderr result), isError = False\<rparr>))"
proof (cases "truthy_value (args ''project'')")
  case None
  then show ?thesis by (simp add: docker_compose_logs_def throw_def)
next
  case project: (Some pr)
  show ?thesis
  proof (cases "sanitizeName_of pr")
    case (Inl e)
    with project show ?thesis by (simp add: docker_compose_logs_def bind_lift_Inl)
  next
    case safe: (Inr safeProject)
    show ?thesis
    proof (cases "case truthy_value (args ''service'') of
                    Some service \<Rightarrow> sanitizeName_of service | None \<Rightarrow> Inr []")
      case (Inl e)
      with project safe show ?thesis
        by (cases "truthy_value (args ''service'')")
          (simp_all add: docker_compose_logs_def bind_lift_Inr bind_lift_Inl bind_ret)
    next
      case service: (Inr safeService)
      show ?thesis
      proof (cases "to_string (nullish_or (args ''tail'') (JNum ''100''))")
        case (Inl e)
        with project safe service show ?thesis
          by (cases "truthy_value (args ''service'')")
            (simp_all add: docker_compose_logs_def bind_lift_Inr bind_lift_Inl bind_ret
              Let_def)
      next
        case (Inr t)
        with project safe service show ?thesis
          by (cases "truthy_value (args ''service'')")
            ((simp add: docker_compose_logs_def bind_lift_Inr bind_ret Let_def, blast)+)
      qed
    qed
  qed
qed

text \<open>
  A call of one of the two log tools that has an event passed the host and the argument
  checks: it is the \<^verbatim>\<open>catch\<close> around one command run with 60000 ms.
\<close>

lemma log_tool_form:
  assumes "name = ''get-container-logs'' \<or> name = ''docker-compose-logs''"
    and "fst (call_tool w name args) \<noteq> []"
  shows "\<exists>h cmd. call_tool w name args =
      try_catch
        (bind (sshExec w cmd \<lparr>host = h, timeout = Some 60000\<rparr>) (\<lambda>result.
           if exitCode result \<noteq> 0 \<and> stdout result = []
           then throw (Error (or_else (stderr result)
                  (or_else (stdout result)
                     (if name = ''get-container-logs'' then ''Failed to get container logs''
                      else ''Failed to get compose logs''))))
           else ret \<lparr>content_text = or_else (stdout result) (stderr result),
                     isError = False\<rparr>))
        (\<lambda>error. ret \<lparr>content_text = ''Error: '' @ message error, isError = True\<rparr>)"
proof (cases "sanitizeName_of (case truthy_value (args ''host'') of
                                 Some v \<Rightarrow> v | None \<Rightarrow> JStr (DEFAULT_SSH_HOST w))")
  case (Inl e)
  then have "call_tool w name args = ([], Inl e)" by (simp add: call_tool_host)
  with assms(2) show ?thesis by simp
next
  case (Inr h)
  then have ct: "call_tool w name args =
      try_catch (dispatch w name args h)
        (\<lambda>error. ret \<lparr>content_text = ''Error: '' @ message error, isError = True\<rparr>)"
    by (simp add: call_tool_host)
  have "dispatch w name args h \<noteq> ([], Inl e)" for e
    using assms(2) ct caught [of e] by auto
  moreover from assms(1) have
    "(\<exists>e. dispatch w name args h = ([], Inl e)) \<or>
     (\<exists>cmd. dispatch w name args h =
        bind (sshExec w cmd \<lparr>host = h, timeout = Some 60000\<rparr>) (\<lambda>result.
           if exitCode result \<noteq> 0 \<and> stdout result = []
           then throw (Error (or_else (stderr result)
                  (or_else (stdout result)
                     (if name = ''get-container-logs'' then ''Failed to get container logs''
                      else ''Failed to get compose logs''))))
           else ret \<lparr>content_text = or_else (stdout result) (stderr result),
                     isError = False\<rparr>))"
  proof
    assume "name = ''get-container-logs''"
    then show ?thesis using get_container_logs_form [of w args h] by (simp add: dispatch_def)
  next
    assume "name = ''docker-compose-logs''"
    then show ?thesis using docker_compose_logs_form [of w args h] by (simp add: dispatch_def)
  qed
  ultimately obtain cmd where "dispatch w name args h =
        bind (sshExec w cmd \<lparr>host = h, timeout = Some 60000\<rparr>) (\<lambda>result.
           if exitCode result \<noteq> 0 \<and> stdout result = []
           then throw (Error (or_else (stderr result)
                  (or_else (stdout result)
                     (if name = ''get-container-logs'' then ''Failed to get container logs''
                      else ''Failed to get compose logs''))))
           else ret \<lparr>content_text = or_else (stdout result) (stderr result),
                     isError = False\<rparr>)"
    by blast
  with ct show ?thesis by (intro exI [of _ h] exI [of _ cmd]) simp
qed

subsection \<open>Well-formed requests reach the executor\<close>

lemma identifier_value_passes:
  assumes "identifier_value v"
  shows "\<exists>s. truthy_value v = Some (JStr s) \<and> sanitizeName_of (JStr s) = Inr s"
  using assms
  by (auto simp: identifier_value_def truthy_value_def sanitizeName_of_def sanitizeName_iff
      split: option.splits json.splits)

lemma host_given_passes:
  assumes "host_given w args"
  shows "\<exists>h. sanitizeName_of (case truthy_value (args ''host'') of
                                Some v \<Rightarrow> v | None \<Rightarrow> JStr (DEFAULT_SSH_HOST w)) = Inr h"
proof (cases "args ''host''")
  case None
  with assms show ?thesis
    by (simp add: host_given_def truthy_value_def sanitizeName_of_def sanitizeName_iff)
next
  case (Some v)
  with assms have "identifier_value (args ''host'')" by (simp add: host_given_def)
  from identifier_value_passes [OF this] show ?thesis by auto
qed

lemma since_given_passes:
  assumes "since_given v"
  shows "truthy_value v = None \<or>
         (\<exists>s. truthy_value v = Some (JStr s) \<and> sanitizeTimestamp_of (JStr s) = Inr s)"
proof (cases v)
  case None
  then show ?thesis by (simp add: truthy_value_def)
next
  case (Some x)
  with assms obtain s where x: "x = JStr s"
    and form: "relative_time s \<or> iso_date s \<or> iso_date_T_run s"
    by (auto simp: since_given_def split: json.splits)
  from form have "s \<noteq> []"
    by (auto simp: relative_time_def iso_date_def iso_date_T_run_def)
  moreover from form have "sanitizeTimestamp s = Inr s"
    by (simp add: sanitizeTimestamp_def test_timestamp_regex)
  ultimately show ?thesis
    using Some x by (simp add: truthy_value_def sanitizeTimestamp_of_def)
qed

lemma tail_given_prints:
  assumes "tail_given v"
  shows "\<exists>t. to_string (nullish_or v (JNum ''100'')) = Inr t"
  using assms by (auto simp: tail_given_def nullish_or_def split: option.splits json.splits)

lemma log_request_name:
  "log_request w name args \<Longrightarrow> name = ''get-container-logs'' \<or> name = ''docker-compose-logs''"
  by (auto simp: log_request_def split: if_splits)

lemma log_request_reaches:
  assumes "log_request w name args"
  shows "fst (call_tool w name args) \<noteq> []"
proof -
  from assms have "host_given w args" and tail: "tail_given (args ''tail'')"
    by (simp_all add: log_request_def)
  then obtain h where h: "sanitizeName_of (case truthy_value (args ''host'') of
      Some v \<Rightarrow> v | None \<Rightarrow> JStr (DEFAULT_SSH_HOST w)) = Inr h"
    using host_given_passes by blast
  obtain t where t: "to_string (nullish_or (args ''tail'') (JNum ''100'')) = Inr t"
    using tail_given_prints [OF tail] by blast
  have "fst (dispatch w name args h) \<noteq> []"
  proof (cases "name = ''get-container-logs''")
    case True
    with assms have "identifier_value (args ''container'')" and "since_given (args ''since'')"
      by (simp_all add: log_request_def)
    then obtain c where c: "truthy_value (args ''container'') = Some (JStr c)"
        "sanitizeName_of (JStr c) = Inr c"
      and since: "truthy_value (args ''since'') = None \<or>
         (\<exists>s. truthy_value (args ''since'') = Some (JStr s) \<and>
              sanitizeTimestamp_of (JStr s) = Inr s)"
      using identifier_value_passes since_given_passes by blast
    from since have "fst (get_container_logs w args h) \<noteq> []"
    proof
      assume "truthy_value (args ''since'') = None"
      with c t show ?thesis
        by (simp add: get_container_logs_def bind_lift_Inr bind_ret Let_def
            bind_sshExec_events)
    next
      assume "\<exists>s. truthy_value (args ''since'') = Some (JStr s) \<and>
                  sanitizeTimestamp_of (JStr s) = Inr s"
      then obtain s where "truthy_value (args ''since'') = Some (JStr s)"
        and "sanitizeTimestamp_of (JStr s) = Inr s" by blast
      with c t show ?thesis
        by (simp add: get_container_logs_def bind_lift_Inr bind_ret Let_def
            bind_sshExec_events)
    qed
    with True show ?thesis by (simp add: dispatch_def)
  next
    case False
    with assms have name: "name = ''docker-compose-logs''"
      and "identifier_value (args ''project'')"
      and service: "args ''service'' = None \<or> identifier_value (args ''service'')"
      by (simp_all add: log_request_def)
    then obtain pr where pr: "truthy_value (args ''project'') = Some (JStr pr)"
        "sanitizeName_of (JStr pr) = Inr pr"
      using identifier_value_passes by blast
    from service have "fst (docker_compose_logs w args h) \<noteq> []"
    proof
      assume "args ''service'' = None"
      with pr t show ?thesis
        by (simp add: docker_compose_logs_def truthy_value_def bind_lift_Inr bind_ret Let_def
            bind_sshExec_events)
    next
      assume "identifier_value (args ''service'')"
      then obtain sv where "truthy_value (args ''service'') = Some (JStr sv)"
        and "sanitizeName_of (JStr sv) = Inr sv"
        using identifier_value_passes by blast
      with pr t show ?thesis
        by (simp add: docker_compose_logs_def bind_lift_Inr bind_ret Let_def
            bind_sshExec_events)
    qed
    with name show ?thesis by (simp add: dispatch_def)
  qed
  with h show ?thesis by (rule call_tool_reached)
qed

subsection \<open>The result of a log tool\<close>

lemma log_tool_exits:
  assumes "name = ''get-container-logs'' \<or> name = ''docker-compose-logs''"
    and "fst (call_tool w name args) \<noteq> []"
    and "spawn w = (\<lambda>argv. Spawned p)"
    and "exits_at p = Some e" and "e < 60000"
    and "exit_status p = st" and "stdout_text p = Inr out" and "stderr_text p = Inr err"
  shows "\<exists>h cmd. call_tool w name args =
     ([Spawn (ssh_argv h cmd)],
      Inr (if st \<noteq> 0 \<and> trim out = []
           then \<lparr>content_text = ''Error: '' @
                    (if trim err \<noteq> [] then trim err
                     else if name = ''get-container-logs'' then ''Failed to get container logs''
                     else ''Failed to get compose logs''),
                 isError = True\<rparr>
           else \<lparr>content_text = (if trim out \<noteq> [] then trim out else trim err),
                 isError = False\<rparr>))"
proof -
  obtain h cmd where ct: "call_tool w name args =
      try_catch
        (bind (sshExec w cmd \<lparr>host = h, timeout = Some 60000\<rparr>) (\<lambda>result.
           if exitCode result \<noteq> 0 \<and> stdout result = []
           then throw (Error (or_else (stderr result)
                  (or_else (stdout result)
                     (if name = ''get-container-logs'' then ''Failed to get container logs''
                      else ''Failed to get compose logs''))))
           else ret \<lparr>content_text = or_else (stdout result) (stderr result),
                     isError = False\<rparr>))
        (\<lambda>error. ret \<lparr>content_text = ''Error: '' @ message error, isError = True\<rparr>)"
    using log_tool_form [OF assms(1,2)] by blast
  have "sshExec w cmd \<lparr>host = h, timeout = Some 60000\<rparr> =
      ([Spawn (ssh_argv h cmd)],
       Inr \<lparr>stdout = trim out, stderr = trim err, exitCode = exit_status p\<rparr>)"
    using assms(3-8) by (intro sshExec_exits [where e = e and t = 60000]) simp_all
  with ct assms(6) have "call_tool w name args =
     ([Spawn (ssh_argv h cmd)],
      Inr (if st \<noteq> 0 \<and> trim out = []
           then \<lparr>content_text = ''Error: '' @
                    (if trim err \<noteq> [] then trim err
                     else if name = ''get-container-logs'' then ''Failed to get container logs''
                     else ''Failed to get compose logs''),
                 isError = True\<rparr>
           else \<lparr>content_text = (if trim out \<noteq> [] then trim out else trim err),
                 isError = False\<rparr>))"
    by (simp add: bind_def try_catch_def throw_def ret_def or_else_def)
  then show ?thesis by blast
qed

text \<open>
  C4. For a call of \<^verbatim>\<open>get-container-logs\<close> or \<^verbatim>\<open>docker-compose-logs\<close>, when the remote
  process exits within the timeout with status \<open>st\<close>, standard output \<open>out\<close> and standard
  error \<open>err\<close>. If the call reaches the remote executor, its result is an error result
  exactly when \<open>st\<close> is not 0 and the trimmed \<open>out\<close> is empty; otherwise it is a
  successful result whose text is the trimmed \<open>out\<close> when that is not empty (also when
  \<open>st\<close> is not 0), and the trimmed \<open>err\<close> when it is. Every well-formed request of either
  tool does reach the executor: it spawns one \<^verbatim>\<open>ssh\<close> process and has this result.
\<close>

theorem log_result_shape:
  assumes "name = ''get-container-logs'' \<or> name = ''docker-compose-logs''"
    and "spawn w = (\<lambda>argv. Spawned p)"
    and "exits_at p = Some e" and "e < 60000"
    and "exit_status p = st" and "stdout_text p = Inr out" and "stderr_text p = Inr err"
  shows "(fst (call_tool w name args) \<noteq> [] \<longrightarrow>
      snd (call_tool w name args) =
        Inr (if st \<noteq> 0 \<and> trim out = []
             then \<lparr>content_text = ''Error: '' @
                      (if trim err \<noteq> [] then trim err
                       else if name = ''get-container-logs''
                         then ''Failed to get container logs''
                       else ''Failed to get compose logs''),
                   isError = True\<rparr>
             else \<lparr>content_text = (if trim out \<noteq> [] then trim out else trim err),
                   isError = False\<rparr>))
   \<and> (log_request w name args \<longrightarrow>
      (\<exists>h cmd. call_tool w name args =
        ([Spawn (ssh_argv h cmd)],
         Inr (if st \<noteq> 0 \<and> trim out = []
              then \<lparr>content_text = ''Error: '' @
                       (if trim err \<noteq> [] then trim err
                        else if name = ''get-container-logs''
                          then ''Failed to get container logs''
                        else ''Failed to get compose logs''),
                    isError = True\<rparr>
              else \<lparr>content_text = (if trim out \<noteq> [] then trim out else trim err),
                    isError = False\<rparr>))))"
proof (intro conjI impI)
  assume "fst (call_tool w name args) \<noteq> []"
  from log_tool_exits [OF assms(1) this assms(2-7)]
  show "snd (call_tool w name args) =
        Inr (if st \<noteq> 0 \<and> trim out = []
             then \<lparr>content_text = ''Error: '' @
                      (if trim err \<noteq> [] then trim err
                       else if name = ''get-container-logs''
                         then ''Failed to get container logs''
                       else ''Failed to get compose logs''),
                   isError = True\<rparr>
             else \<lparr>content_text = (if trim out \<noteq> [] then trim out else trim err),
                   isError = False\<rparr>)"
    by auto
next
  assume "log_request w name args"
  then have "fst (call_tool w name args) \<noteq> []" by (rule log_request_reaches)
  from log_tool_exits [OF assms(1) this assms(2-7)]
  show "\<exists>h cmd. call_tool w name args =
        ([Spawn (ssh_argv h cmd)],
         Inr (if st \<noteq> 0 \<and> trim out = []
              then \<lparr>content_text = ''Error: '' @
                       (if trim err \<noteq> [] then trim err
                        else if name = ''get-container-logs''
                          then ''Failed to get container logs''
                        else ''Failed to get compose logs''),
                    isError = True\<rparr>
              else \<lparr>content_text = (if trim out \<noteq> [] then trim out else trim err),
                    isError = False\<rparr>))" .
qed

lemma log_requests:
  "log_request (world_of p [] []) ''get-container-logs''
     [''container'' \<mapsto> JStr ''web'', ''since'' \<mapsto> JStr ''1h'']"
  "log_request (world_of p [] []) ''docker-compose-logs''
     [''project'' \<mapsto> JStr ''shop'', ''service'' \<mapsto> JStr ''api'', ''tail'' \<mapsto> JNum ''50'']"
proof -
  have "relative_time ''1h''"
    by (simp add: relative_time_def digit_eval unit_letter_def)
  then show "log_request (world_of p [] []) ''get-container-logs''
     [''container'' \<mapsto> JStr ''web'', ''since'' \<mapsto> JStr ''1h'']"
    by (simp add: log_request_def host_given_def identifier_value_def since_given_def
        tail_given_def DEFAULT_SSH_HOST_def world_of_def identifier_chars_def)
  show "log_request (world_of p [] []) ''docker-compose-logs''
     [''project'' \<mapsto> JStr ''shop'', ''service'' \<mapsto> JStr ''api'', ''tail'' \<mapsto> JNum ''50'']"
    by (simp add: log_request_def host_given_def identifier_value_def tail_given_def
        DEFAULT_SSH_HOST_def world_of_def identifier_chars_def)
qed

lemma trims:
  "trim (''Error: No such container: web'' @ [CHR 0x0A]) = ''Error: No such container: web''"
  "trim [] = []"
  "trim ''no configuration file provided: not found''
     = ''no configuration file provided: not found''"
  "trim '' Pulling api '' = ''Pulling api''"
  by (simp_all add: trim_def trimStart_def trimEnd_def strip_leading.simps leading_def
      whitespace_def)

theorem log_result_shape_witness:
  "log_request (world_of (exits 40000 1 (''Error: No such container: web'' @ [CHR 0x0A]) [])
        [] []) ''get-container-logs''
        [''container'' \<mapsto> JStr ''web'', ''since'' \<mapsto> JStr ''1h'']
   \<and> exits_at (exits 40000 1 (''Error: No such container: web'' @ [CHR 0x0A]) []) = Some 40000
   \<and> (40000 :: nat) < 60000
   \<and> fst (call_tool (world_of (exits 40000 1 (''Error: No such container: web'' @ [CHR 0x0A]) [])
          [] []) ''get-container-logs''
          [''container'' \<mapsto> JStr ''web'', ''since'' \<mapsto> JStr ''1h'']) \<noteq> []
   \<and> snd (call_tool (world_of (exits 40000 1 (''Error: No such container: web'' @ [CHR 0x0A]) [])
          [] []) ''get-container-logs''
          [''container'' \<mapsto> JStr ''web'', ''since'' \<mapsto> JStr ''1h''])
       = Inr \<lparr>content_text = ''Error: No such container: web'', isError = False\<rparr>
   \<and> log_request (world_of (exits 900 0 [] '' Pulling api '') [] []) ''docker-compose-logs''
        [''project'' \<mapsto> JStr ''shop'', ''service'' \<mapsto> JStr ''api'', ''tail'' \<mapsto> JNum ''50'']
   \<and> fst (call_tool (world_of (exits 900 0 [] '' Pulling api '') [] []) ''docker-compose-logs''
        [''project'' \<mapsto> JStr ''shop'', ''service'' \<mapsto> JStr ''api'', ''tail'' \<mapsto> JNum ''50''])
       \<noteq> []
   \<and> snd (call_tool (world_of (exits 900 0 [] '' Pulling api '') [] []) ''docker-compose-logs''
        [''project'' \<mapsto> JStr ''shop'', ''service'' \<mapsto> JStr ''api'', ''tail'' \<mapsto> JNum ''50''])
       = Inr \<lparr>content_text = ''Pulling api'', isError = False\<rparr>
   \<and> snd (call_tool
        (world_of (exits 900 1 [] ''no configuration file provided: not found'') [] [])
        ''docker-compose-logs''
        [''project'' \<mapsto> JStr ''shop'', ''service'' \<mapsto> JStr ''api'', ''tail'' \<mapsto> JNum ''50''])
       = Inr \<lparr>content_text = ''Error: no configuration file provided: not found'',
              isError = True\<rparr>"
proof -
  let ?p1 = "exits 40000 1 (''Error: No such container: web'' @ [CHR 0x0A]) []"
  let ?p2 = "exits 900 0 [] '' Pulling api ''"
  let ?p3 = "exits 900 1 [] ''no configuration file provided: not found''"
  let ?logs = "[''container'' \<mapsto> JStr ''web'', ''since'' \<mapsto> JStr ''1h'']"
  let ?compose = "[''project'' \<mapsto> JStr ''shop'', ''service'' \<mapsto> JStr ''api'',
                   ''tail'' \<mapsto> JNum ''50'']"
  have worlds: "spawn (world_of p [] []) = (\<lambda>argv. Spawned p)" for p
    by (simp add: world_of_def)
  have one: "\<exists>h cmd. call_tool (world_of ?p1 [] []) ''get-container-logs'' ?logs =
      ([Spawn (ssh_argv h cmd)],
       Inr \<lparr>content_text = ''Error: No such container: web'', isError = False\<rparr>)"
    using log_result_shape [of "''get-container-logs''" "world_of ?p1 [] []" ?p1 40000 1
        "''Error: No such container: web'' @ [CHR 0x0A]" "[]" ?logs]
      log_requests(1) [of ?p1] worlds [of ?p1] trims
    by (simp add: exits_def)
  have two: "\<exists>h cmd. call_tool (world_of ?p2 [] []) ''docker-compose-logs'' ?compose =
      ([Spawn (ssh_argv h cmd)], Inr \<lparr>content_text = ''Pulling api'', isError = False\<rparr>)"
    using log_result_shape [of "''docker-compose-logs''" "world_of ?p2 [] []" ?p2 900 0
        "[]" "'' Pulling api ''" ?compose]
      log_requests(2) [of ?p2] worlds [of ?p2] trims
    by (simp add: exits_def)
  have three: "\<exists>h cmd. call_tool (world_of ?p3 [] []) ''docker-compose-logs'' ?compose =
      ([Spawn (ssh_argv h cmd)],
       Inr \<lparr>content_text = ''Error: no configuration file provided: not found'',
             isError = True\<rparr>)"
    using log_result_shape [of "''docker-compose-logs''" "world_of ?p3 [] []" ?p3 900 1
        "[]" "''no configuration file provided: not found''" ?compose]
      log_requests(2) [of ?p3] worlds [of ?p3] trims
    by (simp add: exits_def)
  from one two three log_requests(1) [of ?p1] log_requests(2) [of ?p2] show ?thesis
    by (auto simp: exits_def)
qed

section \<open>Timeouts\<close>

lemma sshExec_in_time_no_kill:
  assumes "spawn w (ssh_argv h cmd) = Spawned p" and "exits_at p = Some e" and "e < t"
  shows "Kill \<notin> set (fst (sshExec w cmd \<lparr>host = h, timeout = Some t\<rparr>))"
proof -
  have "race p t = ([], Inr (exit_status p))"
    using assms(2,3) by (simp add: race_def)
  with assms(1) show ?thesis
    by (auto simp: sshExec_def bind_def try_catch_def ret_def lift_def throw_def
        split: sum.splits)
qed

lemma digits_of_60000: "digits_of 60000 = ''60000''"
  by (simp add: digits_of.simps)

lemma log_tool_times_out:
  assumes "name = ''get-container-logs'' \<or> name = ''docker-compose-logs''"
    and "fst (call_tool w name args) \<noteq> []"
    and "spawn w = (\<lambda>argv. Spawned p)"
    and "case exits_at p of None \<Rightarrow> True | Some e \<Rightarrow> 60000 < e"
  shows "\<exists>h cmd. call_tool w name args =
           ([Spawn (ssh_argv h cmd), Kill],
            Inr \<lparr>content_text = ''Error: SSH command timed out after 60000ms'',
                  isError = True\<rparr>)"
proof -
  obtain h cmd where ct: "call_tool w name args =
      try_catch
        (bind (sshExec w cmd \<lparr>host = h, timeout = Some 60000\<rparr>) (\<lambda>result.
           if exitCode result \<noteq> 0 \<and> stdout result = []
           then throw (Error (or_else (stderr result)
                  (or_else (stdout result)
                     (if name = ''get-container-logs'' then ''Failed to get container logs''
                      else ''Failed to get compose logs''))))
           else ret \<lparr>content_text = or_else (stdout result) (stderr result),
                     isError = False\<rparr>))
        (\<lambda>error. ret \<lparr>content_text = ''Error: '' @ message error, isError = True\<rparr>)"
    using log_tool_form [OF assms(1,2)] by blast
  from assms(3,4) have "sshExec w cmd \<lparr>host = h, timeout = Some 60000\<rparr>
      = ([Spawn (ssh_argv h cmd), Kill], Inl (timed_out 60000))"
    by (intro sshExec_timer_first) (auto split: option.splits)
  with ct have "call_tool w name args =
           ([Spawn (ssh_argv h cmd), Kill],
            Inr \<lparr>content_text = ''Error: SSH command timed out after 60000ms'',
                  isError = True\<rparr>)"
    by (simp add: bind_def try_catch_def ret_def timed_out_def digits_of_60000)
  then show ?thesis by blast
qed

lemma log_tool_in_time:
  assumes "name = ''get-container-logs'' \<or> name = ''docker-compose-logs''"
    and "fst (call_tool w name args) \<noteq> []"
    and "spawn w = (\<lambda>argv. Spawned p)"
    and "exits_at p = Some e" and "e < 60000"
  shows "Kill \<notin> set (fst (call_tool w name args))"
proof -
  obtain h cmd where ct: "call_tool w name args =
      try_catch
        (bind (sshExec w cmd \<lparr>host = h, timeout = Some 60000\<rparr>) (\<lambda>result.
           if exitCode result \<noteq> 0 \<and> stdout result = []
           then throw (Error (or_else (stderr result)
                  (or_else (stdout result)
                     (if name = ''get-container-logs'' then ''Failed to get container logs''
                      else ''Failed to get compose logs''))))
           else ret \<lparr>content_text = or_else (stdout result) (stderr result),
                     isError = False\<rparr>))
        (\<lambda>error. ret \<lparr>content_text = ''Error: '' @ message error, isError = True\<rparr>)"
    using log_tool_form [OF assms(1,2)] by blast
  from assms(3-5) have "Kill \<notin> set (fst (sshExec w cmd \<lparr>host = h, timeout = Some 60000\<rparr>))"
    by (intro sshExec_in_time_no_kill [where p = p and e = e]) simp_all
  with ct show ?thesis
    by (auto simp: bind_def try_catch_def ret_def throw_def
        split: prod.splits sum.splits if_splits)
qed

text \<open>
  C9. \<^verbatim>\<open>sshExec\<close> without a timeout is \<^verbatim>\<open>sshExec\<close> with 30000 ms. When the timer of \<open>t\<close>
  milliseconds fires before the process has exited (it exits later, or never), the events
  of \<^verbatim>\<open>sshExec\<close> are the spawn and the kill of the process, and it throws
  \<^verbatim>\<open>SSH command timed out after t ms\<close>: no output of the process is returned. The two log
  tools run their command with 60000 ms. A call of theirs that reaches the executor ends,
  when the process has not exited after 60000 ms, with the process killed and an error
  result that carries this message, and kills nothing when the process exits before
  60000 ms. Every well-formed request of either tool is such a call: it spawns \<^verbatim>\<open>ssh\<close>,
  and is killed with the message of 60000 ms in the first case and not killed in the
  second.
\<close>

theorem timeout_enforced:
  "sshExec w cmd \<lparr>host = h, timeout = None\<rparr> = sshExec w cmd \<lparr>host = h, timeout = Some 30000\<rparr>
   \<and> (spawn w (ssh_argv h cmd) = Spawned p \<and>
        (case exits_at p of None \<Rightarrow> True | Some e \<Rightarrow> t < e)
      \<longrightarrow> sshExec w cmd \<lparr>host = h, timeout = Some t\<rparr>
            = ([Spawn (ssh_argv h cmd), Kill], Inl (timed_out t)))
   \<and> ((name = ''get-container-logs'' \<or> name = ''docker-compose-logs'') \<and>
        fst (call_tool w name args) \<noteq> [] \<and> spawn w = (\<lambda>argv. Spawned p) \<and>
        (case exits_at p of None \<Rightarrow> True | Some e \<Rightarrow> 60000 < e)
      \<longrightarrow> (\<exists>h' cmd'. call_tool w name args =
             ([Spawn (ssh_argv h' cmd'), Kill],
              Inr \<lparr>content_text = ''Error: SSH command timed out after 60000ms'',
                    isError = True\<rparr>)))
   \<and> ((name = ''get-container-logs'' \<or> name = ''docker-compose-logs'') \<and>
        fst (call_tool w name args) \<noteq> [] \<and> spawn w = (\<lambda>argv. Spawned p) \<and>
        exits_at p = Some e \<and> e < 60000
      \<longrightarrow> Kill \<notin> set (fst (call_tool w name args)))
   \<and> (log_request w name args \<and> spawn w = (\<lambda>argv. Spawned p) \<and>
        (case exits_at p of None \<Rightarrow> True | Some e \<Rightarrow> 60000 < e)
      \<longrightarrow> (\<exists>h' cmd'. call_tool w name args =
             ([Spawn (ssh_argv h' cmd'), Kill],
              Inr \<lparr>content_text = ''Error: SSH command timed out after 60000ms'',
                    isError = True\<rparr>)))
   \<and> (log_request w name args \<and> spawn w = (\<lambda>argv. Spawned p) \<and>
        exits_at p = Some e \<and> e < 60000
      \<longrightarrow> (\<exists>h' cmd' evs. fst (call_tool w name args) = Spawn (ssh_argv h' cmd') # evs \<and>
             Kill \<notin> set evs))"
proof (intro conjI impI)
  show "sshExec w cmd \<lparr>host = h, timeout = None\<rparr>
          = sshExec w cmd \<lparr>host = h, timeout = Some 30000\<rparr>"
    by (rule sshExec_default_timeout)
next
  assume "spawn w (ssh_argv h cmd) = Spawned p \<and>
          (case exits_at p of None \<Rightarrow> True | Some e \<Rightarrow> t < e)"
  then show "sshExec w cmd \<lparr>host = h, timeout = Some t\<rparr>
               = ([Spawn (ssh_argv h cmd), Kill], Inl (timed_out t))"
    by (intro sshExec_timer_first) (auto split: option.splits)
next
  assume "(name = ''get-container-logs'' \<or> name = ''docker-compose-logs'') \<and>
        fst (call_tool w name args) \<noteq> [] \<and> spawn w = (\<lambda>argv. Spawned p) \<and>
        (case exits_at p of None \<Rightarrow> True | Some e \<Rightarrow> 60000 < e)"
  then show "\<exists>h' cmd'. call_tool w name args =
             ([Spawn (ssh_argv h' cmd'), Kill],
              Inr \<lparr>content_text = ''Error: SSH command timed out after 60000ms'',
                    isError = True\<rparr>)"
    by (intro log_tool_times_out [where p = p]) (auto split: option.splits)
next
  assume "(name = ''get-container-logs'' \<or> name = ''docker-compose-logs'') \<and>
        fst (call_tool w name args) \<noteq> [] \<and> spawn w = (\<lambda>argv. Spawned p) \<and>
        exits_at p = Some e \<and> e < 60000"
  then show "Kill \<notin> set (fst (call_tool w name args))"
    by (intro log_tool_in_time [where p = p and e = e]) simp_all
next
  assume hyp: "log_request w name args \<and> spawn w = (\<lambda>argv. Spawned p) \<and>
        (case exits_at p of None \<Rightarrow> True | Some e \<Rightarrow> 60000 < e)"
  then have "name = ''get-container-logs'' \<or> name = ''docker-compose-logs''"
    and "fst (call_tool w name args) \<noteq> []"
    using log_request_name log_request_reaches by blast+
  with hyp show "\<exists>h' cmd'. call_tool w name args =
             ([Spawn (ssh_argv h' cmd'), Kill],
              Inr \<lparr>content_text = ''Error: SSH command timed out after 60000ms'',
                    isError = True\<rparr>)"
    by (intro log_tool_times_out [where p = p]) (auto split: option.splits)
next
  assume hyp: "log_request w name args \<and> spawn w = (\<lambda>argv. Spawned p) \<and>
        exits_at p = Some e \<and> e < 60000"
  then have name: "name = ''get-container-logs'' \<or> name = ''docker-compose-logs''"
    and reached: "fst (call_tool w name args) \<noteq> []"
    using log_request_name log_request_reaches by blast+
  have no_kill: "Kill \<notin> set (fst (call_tool w name args))"
    using name reached hyp by (intro log_tool_in_time [where p = p and e = e]) simp_all
  obtain h' cmd' where ct: "call_tool w name args =
      try_catch
        (bind (sshExec w cmd' \<lparr>host = h', timeout = Some 60000\<rparr>) (\<lambda>result.
           if exitCode result \<noteq> 0 \<and> stdout result = []
           then throw (Error (or_else (stderr result)
                  (or_else (stdout result)
                     (if name = ''get-container-logs'' then ''Failed to get container logs''
                      else ''Failed to get compose logs''))))
           else ret \<lparr>content_text = or_else (stdout result) (stderr result),
                     isError = False\<rparr>))
        (\<lambda>error. ret \<lparr>content_text = ''Error: '' @ message error, isError = True\<rparr>)"
    using log_tool_form [OF name reached] by blast
  obtain evs r where "bind (sshExec w cmd' \<lparr>host = h', timeout = Some 60000\<rparr>) (\<lambda>result.
           if exitCode result \<noteq> 0 \<and> stdout result = []
           then throw (Error (or_else (stderr result)
                  (or_else (stdout result)
                     (if name = ''get-container-logs'' then ''Failed to get container logs''
                      else ''Failed to get compose logs''))))
           else ret \<lparr>content_text = or_else (stdout result) (stderr result),
                     isError = False\<rparr>) = (Spawn (ssh_argv h' cmd') # evs, r)"
    using bind_sshExec_first by blast
  with ct obtain evs' where first: "fst (call_tool w name args) = Spawn (ssh_argv h' cmd') # evs'"
    by (cases r) (auto simp: try_catch_def ret_def)
  with no_kill have "Kill \<notin> set evs'" by simp
  with first show "\<exists>h' cmd' evs. fst (call_tool w name args) = Spawn (ssh_argv h' cmd') # evs \<and>
             Kill \<notin> set evs"
    by blast
qed

theorem timeout_enforced_witness:
  "spawn (world_of hangs [] []) (ssh_argv ''dokploy'' ''docker ps'') = Spawned hangs
   \<and> exits_at hangs = None
   \<and> sshExec (world_of hangs [] []) ''docker ps'' \<lparr>host = ''dokploy'', timeout = Some 30000\<rparr>
       = ([Spawn (ssh_argv ''dokploy'' ''docker ps''), Kill], Inl (timed_out 30000))
   \<and> log_request (world_of hangs [] []) ''get-container-logs''
        [''container'' \<mapsto> JStr ''web'', ''since'' \<mapsto> JStr ''1h'']
   \<and> (\<exists>h' cmd'. call_tool (world_of hangs [] []) ''get-container-logs''
                   [''container'' \<mapsto> JStr ''web'', ''since'' \<mapsto> JStr ''1h''] =
             ([Spawn (ssh_argv h' cmd'), Kill],
              Inr \<lparr>content_text = ''Error: SSH command timed out after 60000ms'',
                    isError = True\<rparr>))
   \<and> log_request (world_of hangs [] []) ''docker-compose-logs''
        [''project'' \<mapsto> JStr ''shop'', ''service'' \<mapsto> JStr ''api'', ''tail'' \<mapsto> JNum ''50'']
   \<and> (\<exists>h' cmd'. call_tool (world_of hangs [] []) ''docker-compose-logs''
        [''project'' \<mapsto> JStr ''shop'', ''service'' \<mapsto> JStr ''api'', ''tail'' \<mapsto> JNum ''50''] =
             ([Spawn (ssh_argv h' cmd'), Kill],
              Inr \<lparr>content_text = ''Error: SSH command timed out after 60000ms'',
                    isError = True\<rparr>))
   \<and> exits_at (exits 45000 0 ''started'' []) = Some 45000 \<and> (45000 :: nat) < 60000
   \<and> (\<exists>h' cmd' evs.
        fst (call_tool (world_of (exits 45000 0 ''started'' []) [] []) ''get-container-logs''
              [''container'' \<mapsto> JStr ''web'', ''since'' \<mapsto> JStr ''1h''])
          = Spawn (ssh_argv h' cmd') # evs \<and> Kill \<notin> set evs)
   \<and> (\<exists>h' cmd' evs.
        fst (call_tool (world_of (exits 45000 0 ''started'' []) [] []) ''docker-compose-logs''
              [''project'' \<mapsto> JStr ''shop'', ''service'' \<mapsto> JStr ''api'',
               ''tail'' \<mapsto> JNum ''50''])
          = Spawn (ssh_argv h' cmd') # evs \<and> Kill \<notin> set evs)"
proof -
  let ?q = "exits 45000 0 ''started'' []"
  let ?logs = "[''container'' \<mapsto> JStr ''web'', ''since'' \<mapsto> JStr ''1h'']"
  let ?compose = "[''project'' \<mapsto> JStr ''shop'', ''service'' \<mapsto> JStr ''api'',
                   ''tail'' \<mapsto> JNum ''50'']"
  have pre: "spawn (world_of hangs [] []) = (\<lambda>argv. Spawned hangs)" "exits_at hangs = None"
    "spawn (world_of ?q [] []) = (\<lambda>argv. Spawned ?q)" "exits_at ?q = Some 45000"
    by (simp_all add: world_of_def hangs_def exits_def)
  show ?thesis
    using pre log_requests [of hangs] log_requests [of ?q]
      timeout_enforced [of "world_of hangs [] []" "''docker ps''" "''dokploy''" hangs 30000
        "''get-container-logs''" ?logs 0]
      timeout_enforced [of "world_of hangs [] []" "''docker ps''" "''dokploy''" hangs 30000
        "''docker-compose-logs''" ?compose 0]
      timeout_enforced [of "world_of ?q [] []" "''docker ps''" "''dokploy''" ?q 30000
        "''get-container-logs''" ?logs 45000]
      timeout_enforced [of "world_of ?q [] []" "''docker ps''" "''dokploy''" ?q 30000
        "''docker-compose-logs''" ?compose 45000]
    by simp
qed

section \<open>Where the handler departs from the specification\<close>

lemma try_catch_first:
  "\<exists>evs' r'. try_catch (x # evs, r) handler = (x # evs', r')"
  by (cases r) (auto simp: try_catch_def split: prod.splits)

text \<open>
  C3. The host is sanitized before the \<^verbatim>\<open>try\<close> of the handler: for a host with a space
  (and any tool name, in any world) the handler's promise is rejected with the exception
  of \<^verbatim>\<open>sanitizeName\<close>; no tool result with \<^verbatim>\<open>isError\<close> is returned.
\<close>

theorem host_error_escapes:
  "call_tool w name [''host'' \<mapsto> JStr ''bad host'']
     = ([], Inl (Error ''Invalid characters in input: bad host''))"
proof -
  have "\<not> set ''bad host'' \<subseteq> set identifier_chars"
    by (simp add: identifier_chars_def)
  from bad_identifier_truthy [OF this] show ?thesis
    by (simp add: call_tool_host)
qed

text \<open>Every exception thrown after the host has been accepted is caught.\<close>

lemma caught_after_host:
  assumes "sanitizeName_of (case truthy_value (args ''host'') of
                              Some v \<Rightarrow> v | None \<Rightarrow> JStr (DEFAULT_SSH_HOST w)) = Inr h"
  shows "\<exists>r. snd (call_tool w name args) = Inr r"
  using assms
  by (auto simp: call_tool_host try_catch_def ret_def split: prod.splits sum.splits)

text \<open>
  C1. The value of \<^verbatim>\<open>tail\<close> goes into the command as it is: with the string
  \<^verbatim>\<open>1; rm -rf /\<close> as \<^verbatim>\<open>tail\<close>, \<^verbatim>\<open>get-container-logs\<close> and \<^verbatim>\<open>docker-compose-logs\<close> spawn
  \<^verbatim>\<open>ssh\<close> with a command line that holds the text after the semicolon as a second command,
  in every world.
\<close>

theorem tail_reaches_command:
  "(\<exists>evs r. call_tool w ''get-container-logs''
       [''host'' \<mapsto> JStr ''prod'', ''container'' \<mapsto> JStr ''web'',
        ''tail'' \<mapsto> JStr ''1; rm -rf /'']
     = (Spawn (ssh_argv ''prod'' ''docker logs web --tail 1; rm -rf / -t  2>&1'') # evs, r))
   \<and> (\<exists>evs r. call_tool w ''docker-compose-logs''
       [''host'' \<mapsto> JStr ''prod'', ''project'' \<mapsto> JStr ''shop'',
        ''tail'' \<mapsto> JStr ''1; rm -rf /'']
     = (Spawn (ssh_argv ''prod'' ''docker compose -p shop logs --tail 1; rm -rf /  2>&1'')
          # evs, r))"
proof
  have names: "sanitizeName ''prod'' = Inr ''prod''" "sanitizeName ''web'' = Inr ''web''"
    "sanitizeName ''shop'' = Inr ''shop''"
    by (simp_all add: sanitizeName_iff identifier_chars_def)
  let ?catch = "\<lambda>error. ret \<lparr>content_text = ''Error: '' @ message error, isError = True\<rparr>"
  let ?logs = "[''host'' \<mapsto> JStr ''prod'', ''container'' \<mapsto> JStr ''web'',
                ''tail'' \<mapsto> JStr ''1; rm -rf /'']"
  obtain f where "get_container_logs w ?logs ''prod'' =
      bind (sshExec w ''docker logs web --tail 1; rm -rf / -t  2>&1''
              \<lparr>host = ''prod'', timeout = Some 60000\<rparr>) f"
    using names
    by (simp add: get_container_logs_def truthy_value_def sanitizeName_of_def bind_lift_Inr
        bind_ret Let_def nullish_or_def)
  then obtain evs r where "get_container_logs w ?logs ''prod'' =
      (Spawn (ssh_argv ''prod'' ''docker logs web --tail 1; rm -rf / -t  2>&1'') # evs, r)"
    using bind_sshExec_first [of w "''docker logs web --tail 1; rm -rf / -t  2>&1''"
        "''prod''" "Some 60000" f]
    by auto
  then have "call_tool w ''get-container-logs'' ?logs =
      try_catch (Spawn (ssh_argv ''prod'' ''docker logs web --tail 1; rm -rf / -t  2>&1'')
                   # evs, r) ?catch"
    using names by (simp add: call_tool_host truthy_value_def sanitizeName_of_def dispatch_def)
  then show "\<exists>evs r. call_tool w ''get-container-logs'' ?logs
     = (Spawn (ssh_argv ''prod'' ''docker logs web --tail 1; rm -rf / -t  2>&1'') # evs, r)"
    using try_catch_first [of _ evs r ?catch] by simp
next
  have names: "sanitizeName ''prod'' = Inr ''prod''" "sanitizeName ''shop'' = Inr ''shop''"
    by (simp_all add: sanitizeName_iff identifier_chars_def)
  let ?catch = "\<lambda>error. ret \<lparr>content_text = ''Error: '' @ message error, isError = True\<rparr>"
  let ?compose = "[''host'' \<mapsto> JStr ''prod'', ''project'' \<mapsto> JStr ''shop'',
                   ''tail'' \<mapsto> JStr ''1; rm -rf /'']"
  obtain f where "docker_compose_logs w ?compose ''prod'' =
      bind (sshExec w ''docker compose -p shop logs --tail 1; rm -rf /  2>&1''
              \<lparr>host = ''prod'', timeout = Some 60000\<rparr>) f"
    using names
    by (simp add: docker_compose_logs_def truthy_value_def sanitizeName_of_def bind_lift_Inr
        bind_ret Let_def nullish_or_def)
  then obtain evs r where "docker_compose_logs w ?compose ''prod'' =
      (Spawn (ssh_argv ''prod'' ''docker compose -p shop logs --tail 1; rm -rf /  2>&1'')
         # evs, r)"
    using bind_sshExec_first [of w "''docker compose -p shop logs --tail 1; rm -rf /  2>&1''"
        "''prod''" "Some 60000" f]
    by auto
  then have "call_tool w ''docker-compose-logs'' ?compose =
      try_catch (Spawn (ssh_argv ''prod''
                   ''docker compose -p shop logs --tail 1; rm -rf /  2>&1'') # evs, r) ?catch"
    using names by (simp add: call_tool_host truthy_value_def sanitizeName_of_def dispatch_def)
  then show "\<exists>evs r. call_tool w ''docker-compose-logs'' ?compose
     = (Spawn (ssh_argv ''prod'' ''docker compose -p shop logs --tail 1; rm -rf /  2>&1'')
          # evs, r)"
    using try_catch_first [of _ evs r ?catch] by simp
qed

section \<open>The summary of a container\<close>

lemma members_map:
  "members (map (\<lambda>k. (k, f k)) ks) = List.map_filter (\<lambda>k. map_option (Pair k) (f k)) ks"
proof (induction ks)
  case Nil
  show ?case by simp
next
  case (Cons k ks)
  then show ?case by (cases "f k") simp_all
qed

lemma summary_drawn:
  "data \<noteq> JNull \<Longrightarrow> summary data = Inr (map (\<lambda>k. (k, drawn data k)) summary_keys)"
  by (simp add: summary_def summary_keys_def drawn_def)

lemma map_filter_keys:
  "map fst (List.map_filter (\<lambda>k. map_option (Pair k) (f k)) ks) = filter (\<lambda>k. f k \<noteq> None) ks"
proof (induction ks)
  case Nil
  show ?case by simp
next
  case (Cons k ks)
  then show ?case by (cases "f k") simp_all
qed

text \<open>
  \<^verbatim>\<open>inspect-container\<close> with a container that passes \<^verbatim>\<open>sanitizeName\<close>, when the process
  exits within the default timeout with status 0.
\<close>

lemma inspect_container_exits:
  assumes "truthy_value (args ''container'') = Some c" and "sanitizeName_of c = Inr safe"
    and "spawn w = (\<lambda>argv. Spawned p)"
    and "exits_at p = Some e" and "e < 30000" and "exit_status p = 0"
    and "stdout_text p = Inr out" and "stderr_text p = Inr err"
  shows "inspect_container w args h =
     ([Spawn (ssh_argv h (''docker inspect '' @ safe @ '' --format '' @ [sq] @ ''{{json .}}'' @
                [sq]))],
      Inr \<lparr>content_text =
              (case JSON_parse w (trim out) of
                 None \<Rightarrow> trim out
               | Some data \<Rightarrow>
                   if data = JNull then trim out
                   else JSON_stringify w
                          (JObj (List.map_filter (\<lambda>k. map_option (Pair k) (drawn data k))
                             summary_keys))),
            isError = False\<rparr>)"
proof -
  let ?cmd = "''docker inspect '' @ safe @ '' --format '' @ [sq] @ ''{{json .}}'' @ [sq]"
  have run: "sshExec w ?cmd \<lparr>host = h, timeout = None\<rparr> =
      ([Spawn (ssh_argv h ?cmd)],
       Inr \<lparr>stdout = trim out, stderr = trim err, exitCode = exit_status p\<rparr>)"
    using assms(3-8) by (intro sshExec_exits [where e = e and t = 30000]) simp_all
  let ?raw = "\<lambda>_ :: error. ret \<lparr>content_text = trim out, isError = False\<rparr>"
  have shaped: "try_catch
          (bind (lift (parse w (trim out))) (\<lambda>data.
           bind (lift (summary data)) (\<lambda>fields.
             ret \<lparr>content_text = JSON_stringify w (JObj (members fields)),
                  isError = False\<rparr>)))
          ?raw
      = ([], Inr \<lparr>content_text =
              (case JSON_parse w (trim out) of
                 None \<Rightarrow> trim out
               | Some data \<Rightarrow>
                   if data = JNull then trim out
                   else JSON_stringify w
                          (JObj (List.map_filter (\<lambda>k. map_option (Pair k) (drawn data k))
                             summary_keys))),
            isError = False\<rparr>)"
  proof (cases "JSON_parse w (trim out)")
    case None
    then show ?thesis
      by (simp add: parse_def bind_lift_Inl try_catch_def ret_def)
  next
    case (Some data)
    show ?thesis
    proof (cases "data = JNull")
      case True
      with Some show ?thesis
        by (simp add: parse_def summary_def bind_lift_Inr bind_lift_Inl try_catch_def ret_def)
    next
      case False
      with Some show ?thesis
        by (simp add: parse_def summary_drawn members_map bind_lift_Inr try_catch_def ret_def)
    qed
  qed
  from assms(1,2) have "inspect_container w args h =
      bind (sshExec w ?cmd \<lparr>host = h, timeout = None\<rparr>) (\<lambda>result.
        if exitCode result \<noteq> 0
        then throw (Error (or_else (stderr result) ''Failed to inspect container''))
        else try_catch
               (bind (lift (parse w (stdout result))) (\<lambda>data.
                bind (lift (summary data)) (\<lambda>fields.
                  ret \<lparr>content_text = JSON_stringify w (JObj (members fields)),
                       isError = False\<rparr>)))
               (\<lambda>_. ret \<lparr>content_text = stdout result, isError = False\<rparr>))"
    by (simp add: inspect_container_def bind_lift_Inr Let_def)
  with run assms(6) shaped show ?thesis
    by (simp add: bind_def)
qed

lemma inspect_container_form:
  "(\<exists>e. inspect_container w args h = ([], Inl e)) \<or>
   (\<exists>c safe. truthy_value (args ''container'') = Some c \<and> sanitizeName_of c = Inr safe)"
proof (cases "truthy_value (args ''container'')")
  case None
  then show ?thesis by (simp add: inspect_container_def throw_def)
next
  case (Some c)
  then show ?thesis
    by (cases "sanitizeName_of c") (simp_all add: inspect_container_def bind_lift_Inl)
qed

text \<open>
  C8, as the code has it. For a call of \<^verbatim>\<open>inspect-container\<close> that reaches the remote
  executor and whose process exits within the timeout with status 0: when the trimmed
  output parses as JSON to a value other than \<^verbatim>\<open>null\<close>, the result is the JSON text of
  an object that has, in the order \<^verbatim>\<open>Name\<close>, \<^verbatim>\<open>State\<close>, \<^verbatim>\<open>Image\<close>, \<^verbatim>\<open>Created\<close>,
  \<^verbatim>\<open>Ports\<close>, \<^verbatim>\<open>Env\<close>, \<^verbatim>\<open>Mounts\<close>, those of the seven keys whose value is defined in the
  parsed value (\<^verbatim>\<open>Image\<close> and \<^verbatim>\<open>Env\<close> read from \<^verbatim>\<open>Config\<close>, \<^verbatim>\<open>Ports\<close> from
  \<^verbatim>\<open>NetworkSettings\<close>), each with that value, and no other member; when the output does
  not parse, or parses to \<^verbatim>\<open>null\<close>, the result is the trimmed output unchanged. In both
  cases the result is not an error.
\<close>

theorem inspect_result_shape:
  assumes "fst (call_tool w ''inspect-container'' args) \<noteq> []"
    and "spawn w = (\<lambda>argv. Spawned p)"
    and "exits_at p = Some e" and "e < 30000" and "exit_status p = 0"
    and "stdout_text p = Inr out" and "stderr_text p = Inr err"
  shows "snd (call_tool w ''inspect-container'' args) =
     Inr \<lparr>content_text =
            (case JSON_parse w (trim out) of
               None \<Rightarrow> trim out
             | Some data \<Rightarrow>
                 if data = JNull then trim out
                 else JSON_stringify w
                        (JObj (List.map_filter (\<lambda>k. map_option (Pair k) (drawn data k))
                           summary_keys))),
          isError = False\<rparr>
   \<and> map fst (List.map_filter (\<lambda>k. map_option (Pair k) (drawn data k)) summary_keys)
       = filter (\<lambda>k. drawn data k \<noteq> None) summary_keys"
proof
  show "map fst (List.map_filter (\<lambda>k. map_option (Pair k) (drawn data k)) summary_keys)
       = filter (\<lambda>k. drawn data k \<noteq> None) summary_keys"
    by (rule map_filter_keys)
next
  let ?catch = "\<lambda>error. ret \<lparr>content_text = ''Error: '' @ message error, isError = True\<rparr>"
  show "snd (call_tool w ''inspect-container'' args) =
     Inr \<lparr>content_text =
            (case JSON_parse w (trim out) of
               None \<Rightarrow> trim out
             | Some data \<Rightarrow>
                 if data = JNull then trim out
                 else JSON_stringify w
                        (JObj (List.map_filter (\<lambda>k. map_option (Pair k) (drawn data k))
                           summary_keys))),
          isError = False\<rparr>"
  proof (cases "sanitizeName_of (case truthy_value (args ''host'') of
                                   Some v \<Rightarrow> v | None \<Rightarrow> JStr (DEFAULT_SSH_HOST w))")
    case (Inl x)
    then have "call_tool w ''inspect-container'' args = ([], Inl x)"
      by (simp add: call_tool_host)
    with assms(1) show ?thesis by simp
  next
    case (Inr h)
    then have ct: "call_tool w ''inspect-container'' args =
        try_catch (inspect_container w args h) ?catch"
      by (simp add: call_tool_host dispatch_def)
    have "inspect_container w args h \<noteq> ([], Inl x)" for x
      using assms(1) ct caught [of x] by auto
    then obtain c safe where c: "truthy_value (args ''container'') = Some c"
      and safe: "sanitizeName_of c = Inr safe"
      using inspect_container_form [of w args h] by blast
    from c safe assms(2-7) have "inspect_container w args h =
       ([Spawn (ssh_argv h (''docker inspect '' @ safe @ '' --format '' @ [sq] @
                  ''{{json .}}'' @ [sq]))],
        Inr \<lparr>content_text =
                (case JSON_parse w (trim out) of
                   None \<Rightarrow> trim out
                 | Some data \<Rightarrow>
                     if data = JNull then trim out
                     else JSON_stringify w
                            (JObj (List.map_filter (\<lambda>k. map_option (Pair k) (drawn data k))
                               summary_keys))),
              isError = False\<rparr>)"
      by (rule inspect_container_exits [where args = args and c = c])
    with ct show ?thesis
      by (simp add: try_catch_def)
  qed
qed

lemma inspect_reached:
  "fst (call_tool (world_of p parses prints) ''inspect-container''
         [''container'' \<mapsto> JStr ''web'']) \<noteq> []"
proof -
  have web: "sanitizeName ''web'' = Inr ''web''"
    and host: "sanitizeName ''dokploy'' = Inr ''dokploy''"
    by (simp_all add: sanitizeName_iff identifier_chars_def)
  have "fst (inspect_container (world_of p parses prints) [''container'' \<mapsto> JStr ''web'']
          ''dokploy'') \<noteq> []"
    using web
    by (simp add: inspect_container_def truthy_value_def sanitizeName_of_def bind_lift_Inr
        Let_def bind_sshExec_events)
  then show ?thesis
    using host
    by (intro call_tool_reached [where h = "''dokploy''"])
      (simp_all add: truthy_value_def DEFAULT_SSH_HOST_def world_of_def sanitizeName_of_def
        dispatch_def)
qed

lemma trim_inspect_output: "trim (inspect_output @ [CHR 0x0A]) = inspect_output"
  by (simp add: inspect_output_def trim_def trimStart_def trimEnd_def strip_leading.simps
      leading_def whitespace_def)

theorem inspect_result_shape_witness:
  "fst (call_tool
         (world_of (exits 120 0 (inspect_output @ [CHR 0x0A]) [])
            [(inspect_output, inspect_value)]
            [(JObj [(''Name'', JStr ''/web''), (''Image'', JStr ''nginx'')],
              inspect_summary_text)])
         ''inspect-container'' [''container'' \<mapsto> JStr ''web'']) \<noteq> []
   \<and> exits_at (exits 120 0 (inspect_output @ [CHR 0x0A]) []) = Some 120
   \<and> (120 :: nat) < 30000
   \<and> exit_status (exits 120 0 (inspect_output @ [CHR 0x0A]) []) = 0
   \<and> snd (call_tool
         (world_of (exits 120 0 (inspect_output @ [CHR 0x0A]) [])
            [(inspect_output, inspect_value)]
            [(JObj [(''Name'', JStr ''/web''), (''Image'', JStr ''nginx'')],
              inspect_summary_text)])
         ''inspect-container'' [''container'' \<mapsto> JStr ''web''])
       = Inr \<lparr>content_text = inspect_summary_text, isError = False\<rparr>
   \<and> filter (\<lambda>k. drawn inspect_value k \<noteq> None) summary_keys = [''Name'', ''Image'']"
proof -
  let ?p = "exits 120 0 (inspect_output @ [CHR 0x0A]) []"
  let ?w = "world_of ?p [(inspect_output, inspect_value)]
              [(JObj [(''Name'', JStr ''/web''), (''Image'', JStr ''nginx'')],
                inspect_summary_text)]"
  have pre: "spawn ?w = (\<lambda>argv. Spawned ?p)" "exits_at ?p = Some 120" "exit_status ?p = 0"
    "stdout_text ?p = Inr (inspect_output @ [CHR 0x0A])" "stderr_text ?p = Inr []"
    by (simp_all add: world_of_def exits_def)
  have drawn: "List.map_filter (\<lambda>k. map_option (Pair k) (drawn inspect_value k)) summary_keys
      = [(''Name'', JStr ''/web''), (''Image'', JStr ''nginx'')]"
    by (simp add: summary_keys_def drawn_def inspect_value_def member_def
        opt_member_def)
  have keys: "filter (\<lambda>k. drawn inspect_value k \<noteq> None) summary_keys = [''Name'', ''Image'']"
    by (simp add: summary_keys_def drawn_def inspect_value_def member_def opt_member_def)
  have parsed: "JSON_parse ?w inspect_output = Some inspect_value"
    and not_null: "inspect_value \<noteq> JNull"
    and printed: "JSON_stringify ?w (JObj [(''Name'', JStr ''/web''), (''Image'', JStr ''nginx'')])
      = inspect_summary_text"
    by (simp_all add: world_of_def inspect_value_def)
  show ?thesis
    using inspect_result_shape [OF inspect_reached pre(1,2) _ pre(3,4,5), of inspect_value]
      inspect_reached [of ?p] pre keys parsed not_null printed drawn trim_inspect_output
    by simp
qed

text \<open>
  The claim C8 as the specification states it fails: the output \<^verbatim>\<open>{}\<close> parses as JSON,
  and the result is the text \<^verbatim>\<open>{}\<close> of an object with none of the seven fields; the
  output \<^verbatim>\<open>null\<close> parses as JSON, and the result is the raw text.
\<close>

theorem inspect_summary_counterexample:
  "call_tool (world_of (exits 120 0 ''{}'' []) [(''{}'', JObj [])] [(JObj [], ''{}'')])
     ''inspect-container'' [''container'' \<mapsto> JStr ''web'']
     = ([Spawn (ssh_argv ''dokploy''
                  (''docker inspect web --format '' @ [sq] @ ''{{json .}}'' @ [sq]))],
        Inr \<lparr>content_text = ''{}'', isError = False\<rparr>)
   \<and> JSON_parse (world_of (exits 120 0 ''{}'' []) [(''{}'', JObj [])] [(JObj [], ''{}'')]) ''{}''
       = Some (JObj [])
   \<and> map_sum id (map fst \<circ> members) (summary (JObj [])) = Inr []
   \<and> [] \<noteq> summary_keys
   \<and> call_tool (world_of (exits 120 0 ''null'' []) [(''null'', JNull)] [])
       ''inspect-container'' [''container'' \<mapsto> JStr ''web'']
       = ([Spawn (ssh_argv ''dokploy''
                    (''docker inspect web --format '' @ [sq] @ ''{{json .}}'' @ [sq]))],
          Inr \<lparr>content_text = ''null'', isError = False\<rparr>)
   \<and> JSON_parse (world_of (exits 120 0 ''null'' []) [(''null'', JNull)] []) ''null''
       = Some JNull"
proof -
  let ?p = "exits 120 0 ''{}'' []"
  let ?w = "world_of ?p [(''{}'', JObj [])] [(JObj [], ''{}'')]"
  let ?args = "[''container'' \<mapsto> JStr ''web'']"
  have web: "sanitizeName ''web'' = Inr ''web''"
    and host: "sanitizeName ''dokploy'' = Inr ''dokploy''"
    by (simp_all add: sanitizeName_iff identifier_chars_def)
  have tr: "trim ''{}'' = ''{}''"
    by (simp add: trim_def trimStart_def trimEnd_def strip_leading.simps leading_def
        whitespace_def)
  have none: "List.map_filter (\<lambda>k. map_option (Pair k) (drawn (JObj []) k)) summary_keys = []"
    by (simp add: summary_keys_def drawn_def member_def opt_member_def)
  have "inspect_container ?w ?args ''dokploy'' =
     ([Spawn (ssh_argv ''dokploy''
                (''docker inspect '' @ ''web'' @ '' --format '' @ [sq] @ ''{{json .}}'' @ [sq]))],
      Inr \<lparr>content_text = ''{}'', isError = False\<rparr>)"
    using inspect_container_exits [of ?args "JStr ''web''" "''web''" ?w ?p 120 "''{}''" "[]"
        "''dokploy''"] web tr none
    by (simp add: truthy_value_def sanitizeName_of_def world_of_def exits_def)
  then have "call_tool ?w ''inspect-container'' ?args
     = ([Spawn (ssh_argv ''dokploy''
                  (''docker inspect web --format '' @ [sq] @ ''{{json .}}'' @ [sq]))],
        Inr \<lparr>content_text = ''{}'', isError = False\<rparr>)"
    using host
    by (simp add: call_tool_host truthy_value_def DEFAULT_SSH_HOST_def sanitizeName_of_def
        dispatch_def try_catch_def world_of_def)
  moreover have "JSON_parse ?w ''{}'' = Some (JObj [])"
    by (simp add: world_of_def)
  moreover have "map_sum id (map fst \<circ> members) (summary (JObj [])) = Inr []"
    by (simp add: summary_def member_def opt_member_def)
  moreover have "[] \<noteq> summary_keys"
    by (simp add: summary_keys_def)
  moreover have "call_tool (world_of (exits 120 0 ''null'' []) [(''null'', JNull)] [])
       ''inspect-container'' ?args
       = ([Spawn (ssh_argv ''dokploy''
                    (''docker inspect web --format '' @ [sq] @ ''{{json .}}'' @ [sq]))],
          Inr \<lparr>content_text = ''null'', isError = False\<rparr>)"
  proof -
    let ?n = "world_of (exits 120 0 ''null'' []) [(''null'', JNull)] []"
    have trn: "trim ''null'' = ''null''"
      by (simp add: trim_def trimStart_def trimEnd_def strip_leading.simps leading_def
          whitespace_def)
    have "inspect_container ?n ?args ''dokploy'' =
       ([Spawn (ssh_argv ''dokploy''
                  (''docker inspect '' @ ''web'' @ '' --format '' @ [sq] @ ''{{json .}}'' @
                   [sq]))],
        Inr \<lparr>content_text = ''null'', isError = False\<rparr>)"
      using inspect_container_exits [of ?args "JStr ''web''" "''web''" ?n
          "exits 120 0 ''null'' []" 120 "''null''" "[]" "''dokploy''"] web trn
      by (simp add: truthy_value_def sanitizeName_of_def world_of_def exits_def)
    then show ?thesis
      using host
      by (simp add: call_tool_host truthy_value_def DEFAULT_SSH_HOST_def sanitizeName_of_def
          dispatch_def try_catch_def world_of_def)
  qed
  moreover have "JSON_parse (world_of (exits 120 0 ''null'' []) [(''null'', JNull)] []) ''null''
       = Some JNull"
    by (simp add: world_of_def)
  ultimately show ?thesis by simp
qed

end
